theory Spec2Isabelle
  imports Complex_Main
begin

section \<open>Values of the host language\<close>

text \<open>
  The three Mongoose schemas (TaxRecord, Budget, EstatePlan) compute over JavaScript
  Numbers and Dates. A Number is a binary64 value; the finite ones are rationals, and
  a finite Number is modelled as the rational it denotes. The operators \<open>+\<close>,
  \<open>-\<close>, \<open>*\<close> and \<open>/\<close> round the exact result to the nearest binary64 value, a
  tie to the one with an even significand (\<open>fl\<close>). \<open>NaN\<close>, the infinities, and
  with them results beyond the largest binary64 value, are outside the model. A
  Date is its time value, the number of milliseconds since the epoch (UTC), an
  integer; time values and their differences are computed exactly, the range limit of
  \<open>TimeClip\<close> and differences beyond \<open>2^53\<close> being outside the model. A path that
  may hold no value (\<open>undefined\<close> or \<open>null\<close>) is an \<open>option\<close>.
\<close>

type_synonym number = rat
type_synonym timevalue = int

text \<open>\<open>!x\<close> on a Number path: \<open>undefined\<close>, \<open>null\<close> and \<open>0\<close> are falsy.\<close>

fun falsyNumber :: "number option \<Rightarrow> bool" where
  "falsyNumber None = True"
| "falsyNumber (Some n) = (n = 0)"

text \<open>\<open>!x\<close> on a Date path: a Date object is always truthy.\<close>

fun falsyDate :: "timevalue option \<Rightarrow> bool" where
  "falsyDate None = True"
| "falsyDate (Some d) = False"

text \<open>
  Rounding to binary64. \<open>bits n\<close> is the number of binary digits of \<open>n\<close>;
  \<open>exponentOf x\<close> is the exponent \<open>e\<close> with \<open>2^e \<le> x < 2^(e + 1)\<close> of a positive
  \<open>x\<close>; the significand has 53 bits, so the values near \<open>x\<close> are the multiples
  of \<open>2^(e - 52)\<close>, and of \<open>2^(-1074)\<close> in the subnormal range.
\<close>

fun bits :: "nat \<Rightarrow> nat" where
  "bits n = (if n = 0 then 0 else Suc (bits (n div 2)))"

declare bits.simps [simp del]

definition pow2 :: "int \<Rightarrow> rat" where
  "pow2 k = (if 0 \<le> k then 2 ^ nat k else 1 / 2 ^ nat (- k))"

definition exponentOf :: "rat \<Rightarrow> int" where
  "exponentOf x =
     (if 1 \<le> x then int (bits (nat \<lfloor>x\<rfloor>)) - 1
      else - int (bits (nat (\<lceil>1 / x\<rceil> - 1))))"

definition roundEven :: "rat \<Rightarrow> int" where
  "roundEven r =
     (let f = \<lfloor>r\<rfloor>; d = r - of_int f
      in if d < 1 / 2 then f
         else if 1 / 2 < d then f + 1
         else if even f then f else f + 1)"

definition quantum :: "rat \<Rightarrow> rat" where
  "quantum x = pow2 (max (exponentOf \<bar>x\<bar>) (- 1022) - 52)"

definition fl :: "rat \<Rightarrow> number" where
  "fl x = (if x = 0 then 0 else of_int (roundEven (x / quantum x)) * quantum x)"

text \<open>The arithmetic operators of the language on Numbers.\<close>

definition jsAdd :: "number \<Rightarrow> number \<Rightarrow> number" where
  "jsAdd a b = fl (a + b)"

definition jsSub :: "number \<Rightarrow> number \<Rightarrow> number" where
  "jsSub a b = fl (a - b)"

definition jsMul :: "number \<Rightarrow> number \<Rightarrow> number" where
  "jsMul a b = fl (a * b)"

definition jsDiv :: "number \<Rightarrow> number \<Rightarrow> number" where
  "jsDiv a b = fl (a / b)"

text \<open>\<open>Math.round\<close> rounds to the nearest integer, a tie towards \<open>+\<infinity>\<close>;
  \<open>Math.ceil\<close> is the ceiling. Both are exact on a Number.\<close>

definition Math_round :: "number \<Rightarrow> number" where
  "Math_round x = of_int \<lfloor>x + 1 / 2\<rfloor>"

definition Math_ceil :: "number \<Rightarrow> number" where
  "Math_ceil x = of_int \<lceil>x\<rceil>"

section \<open>Dates: the time-value arithmetic of ECMAScript\<close>

text \<open>
  The hooks use \<open>new Date()\<close>, \<open>new Date(y, m, d)\<close>, the getters \<open>getFullYear\<close>,
  \<open>getMonth\<close>, \<open>getDate\<close> and the setters \<open>setDate\<close>, \<open>setMonth\<close>,
  \<open>setFullYear\<close>. They are built-ins of the language, modelled after the abstract
  operations of the ECMAScript standard (Day, TimeWithinDay, DayFromYear, YearFromTime,
  MonthFromTime, DateFromTime, MakeDay, MakeDate, LocalTime, UTC). The local time zone
  is a constant offset \<open>tza\<close> in milliseconds (LocalTZA); daylight-saving changes are
  outside the model.
\<close>

definition msPerDay :: int where
  "msPerDay = 86400000"

definition Day :: "int \<Rightarrow> int" where
  "Day t = t div msPerDay"

definition TimeWithinDay :: "int \<Rightarrow> int" where
  "TimeWithinDay t = t mod msPerDay"

definition isLeapYear :: "int \<Rightarrow> bool" where
  "isLeapYear y = (y mod 4 = 0 \<and> (y mod 100 \<noteq> 0 \<or> y mod 400 = 0))"

definition DaysInYear :: "int \<Rightarrow> int" where
  "DaysInYear y = (if isLeapYear y then 366 else 365)"

definition DayFromYear :: "int \<Rightarrow> int" where
  "DayFromYear y =
     365 * (y - 1970) + (y - 1969) div 4 - (y - 1901) div 100 + (y - 1601) div 400"

text \<open>
  YearFromTime is the largest year \<open>y\<close> with \<open>DayFromYear y \<le> Day t\<close>. It is computed
  by a search that walks from a first estimate to that year.
\<close>

function yearSearch :: "int \<Rightarrow> int \<Rightarrow> int" where
  "yearSearch d y =
     (if d < DayFromYear y then yearSearch d (y - 1)
      else if DayFromYear (y + 1) \<le> d then yearSearch d (y + 1)
      else y)"
  by pat_completeness (simp only: prod.inject)

lemma div_add1_int:
  fixes a k :: int
  assumes "0 < k"
  shows "(a + 1) div k = (if (a + 1) mod k = 0 then a div k + 1 else a div k)"
proof -
  define q r where "q = a div k" and "r = a mod k"
  have a: "a = k * q + r"
    by (simp add: q_def r_def)
  have r: "0 \<le> r" "r < k"
    using assms by (simp_all add: r_def)
  show ?thesis
  proof (cases "r + 1 = k")
    case True
    have e: "a + 1 = k * (q + 1) + 0"
      using a True by (simp add: algebra_simps)
    have "(a + 1) div k = q + 1"
      by (rule int_div_pos_eq [OF e]) (use assms in simp_all)
    moreover have "(a + 1) mod k = 0"
      by (rule int_mod_pos_eq [OF e]) (use assms in simp_all)
    ultimately show ?thesis by (simp add: q_def)
  next
    case False
    have e: "a + 1 = k * q + (r + 1)"
      using a by simp
    have b: "0 \<le> r + 1" "r + 1 < k"
      using r False by linarith+
    have "(a + 1) div k = q"
      by (rule int_div_pos_eq [OF e b])
    moreover have "(a + 1) mod k = r + 1"
      by (rule int_mod_pos_eq [OF e b])
    ultimately show ?thesis using r by (simp add: q_def)
  qed
qed

lemma leap_shift:
  "((y::int) - 1968) mod 4 = 0 \<longleftrightarrow> y mod 4 = 0"
  "((y::int) - 1900) mod 100 = 0 \<longleftrightarrow> y mod 100 = 0"
  "((y::int) - 1600) mod 400 = 0 \<longleftrightarrow> y mod 400 = 0"
proof -
  have "(4::int) dvd 1968" "(100::int) dvd 1900" "(400::int) dvd 1600"
    by simp_all
  then show "((y::int) - 1968) mod 4 = 0 \<longleftrightarrow> y mod 4 = 0"
    "((y::int) - 1900) mod 100 = 0 \<longleftrightarrow> y mod 100 = 0"
    "((y::int) - 1600) mod 400 = 0 \<longleftrightarrow> y mod 400 = 0"
    by (simp_all only: mod_eq_0_iff_dvd dvd_diff_left_iff)
qed

lemma DayFromYear_Suc: "DayFromYear (y + 1) = DayFromYear y + DaysInYear y"
proof -
  have a: "(y + 1 - 1969) div 4 = (if y mod 4 = 0 then (y - 1969) div 4 + 1 else (y - 1969) div 4)"
    using div_add1_int [of 4 "y - 1969"] leap_shift(1) [of y] by (simp add: algebra_simps)
  have b: "(y + 1 - 1901) div 100 = (if y mod 100 = 0 then (y - 1901) div 100 + 1 else (y - 1901) div 100)"
    using div_add1_int [of 100 "y - 1901"] leap_shift(2) [of y] by (simp add: algebra_simps)
  have c: "(y + 1 - 1601) div 400 = (if y mod 400 = 0 then (y - 1601) div 400 + 1 else (y - 1601) div 400)"
    using div_add1_int [of 400 "y - 1601"] leap_shift(3) [of y] by (simp add: algebra_simps)
  have d: "y mod 400 = 0 \<Longrightarrow> y mod 100 = 0" "y mod 100 = 0 \<Longrightarrow> y mod 4 = 0"
  proof -
    have "(100::int) dvd 400" "(4::int) dvd 100"
      by simp_all
    then show "y mod 400 = 0 \<Longrightarrow> y mod 100 = 0" "y mod 100 = 0 \<Longrightarrow> y mod 4 = 0"
      unfolding mod_eq_0_iff_dvd by (blast intro: dvd_trans)+
  qed
  show ?thesis
    unfolding DayFromYear_def DaysInYear_def isLeapYear_def a b c
    using d by (simp split: if_splits)
qed

lemma DayFromYear_less: "DayFromYear y < DayFromYear (y + 1)"
  by (simp add: DayFromYear_Suc DaysInYear_def)

text \<open>The distance of the search from its result: it decreases at every step.\<close>

definition yearDist :: "int \<times> int \<Rightarrow> nat" where
  "yearDist p =
     (case p of (d, y) \<Rightarrow>
        if d < DayFromYear y then nat (DayFromYear y - d)
        else if DayFromYear (y + 1) \<le> d then nat (d - DayFromYear (y + 1) + 1)
        else 0)"

lemma yearDist_down:
  assumes "d < DayFromYear y"
  shows "yearDist (d, y - 1) < yearDist (d, y)"
proof -
  have a: "DayFromYear (y - 1) < DayFromYear y"
    using DayFromYear_less [of "y - 1"] by simp
  have b: "yearDist (d, y) = nat (DayFromYear y - d)"
    using assms by (simp add: yearDist_def)
  have c: "yearDist (d, y - 1) =
           (if d < DayFromYear (y - 1) then nat (DayFromYear (y - 1) - d) else 0)"
    using assms by (simp add: yearDist_def)
  show ?thesis
  proof (cases "d < DayFromYear (y - 1)")
    case True
    then have "yearDist (d, y - 1) = nat (DayFromYear (y - 1) - d)"
      by (simp only: c if_True)
    then show ?thesis unfolding b using a assms True by linarith
  next
    case False
    then have "yearDist (d, y - 1) = 0"
      by (simp only: c if_False)
    then show ?thesis unfolding b using a assms False by linarith
  qed
qed

lemma yearDist_up:
  assumes "\<not> d < DayFromYear y" and "DayFromYear (y + 1) \<le> d"
  shows "yearDist (d, y + 1) < yearDist (d, y)"
proof -
  have a: "DayFromYear (y + 1) < DayFromYear (y + 1 + 1)"
    by (rule DayFromYear_less)
  have b: "yearDist (d, y) = nat (d - DayFromYear (y + 1) + 1)"
    using assms by (simp add: yearDist_def)
  have c: "yearDist (d, y + 1) =
           (if DayFromYear (y + 1 + 1) \<le> d then nat (d - DayFromYear (y + 1 + 1) + 1) else 0)"
  proof -
    have "\<not> d < DayFromYear (y + 1)"
      using assms by linarith
    then show ?thesis
      unfolding yearDist_def prod.case by (simp only: if_False)
  qed
  show ?thesis
  proof (cases "DayFromYear (y + 1 + 1) \<le> d")
    case True
    then have "yearDist (d, y + 1) = nat (d - DayFromYear (y + 1 + 1) + 1)"
      by (simp only: c if_True)
    then show ?thesis unfolding b using a assms True by linarith
  next
    case False
    then have "yearDist (d, y + 1) = 0"
      by (simp only: c if_False)
    then show ?thesis unfolding b using a assms False by linarith
  qed
qed

termination yearSearch
proof (relation "measure yearDist")
  show "wf (measure yearDist)"
    by (rule wf_measure)
next
  fix d y :: int
  assume "d < DayFromYear y"
  then show "((d, y - 1), (d, y)) \<in> measure yearDist"
    unfolding in_measure by (rule yearDist_down)
next
  fix d y :: int
  assume "\<not> d < DayFromYear y" and "DayFromYear (y + 1) \<le> d"
  then show "((d, y + 1), (d, y)) \<in> measure yearDist"
    unfolding in_measure by (rule yearDist_up)
qed

declare yearSearch.simps [simp del]

definition YearFromDay :: "int \<Rightarrow> int" where
  "YearFromDay d = yearSearch d (1970 + (400 * d) div 146097)"

definition YearFromTime :: "int \<Rightarrow> int" where
  "YearFromTime t = YearFromDay (Day t)"

definition DayWithinYear :: "int \<Rightarrow> int" where
  "DayWithinYear t = Day t - DayFromYear (YearFromTime t)"

definition InLeapYear :: "int \<Rightarrow> int" where
  "InLeapYear t = (if isLeapYear (YearFromTime t) then 1 else 0)"

text \<open>The day number within the year at which month \<open>m\<close> (0 to 11) starts.\<close>

definition monthStart :: "int \<Rightarrow> int \<Rightarrow> int" where
  "monthStart m leap =
     (if m = 0 then 0 else if m = 1 then 31
      else if m = 2 then 59 + leap else if m = 3 then 90 + leap
      else if m = 4 then 120 + leap else if m = 5 then 151 + leap
      else if m = 6 then 181 + leap else if m = 7 then 212 + leap
      else if m = 8 then 243 + leap else if m = 9 then 273 + leap
      else if m = 10 then 304 + leap else 334 + leap)"

definition monthOfDay :: "int \<Rightarrow> int \<Rightarrow> int" where
  "monthOfDay dwy leap =
     (if dwy < 31 then 0 else if dwy < 59 + leap then 1
      else if dwy < 90 + leap then 2 else if dwy < 120 + leap then 3
      else if dwy < 151 + leap then 4 else if dwy < 181 + leap then 5
      else if dwy < 212 + leap then 6 else if dwy < 243 + leap then 7
      else if dwy < 273 + leap then 8 else if dwy < 304 + leap then 9
      else if dwy < 334 + leap then 10 else 11)"

definition MonthFromTime :: "int \<Rightarrow> int" where
  "MonthFromTime t = monthOfDay (DayWithinYear t) (InLeapYear t)"

definition DateFromTime :: "int \<Rightarrow> int" where
  "DateFromTime t =
     DayWithinYear t - monthStart (MonthFromTime t) (InLeapYear t) + 1"

text \<open>
  MakeDay year month date: the day number of the first of the month
  \<open>(year + month div 12, month mod 12)\<close>, plus \<open>date - 1\<close>; a month or a date out
  of range runs over into the following months.
\<close>

definition MakeDay :: "int \<Rightarrow> int \<Rightarrow> int \<Rightarrow> int" where
  "MakeDay year month dt =
     (let ym = year + month div 12; mn = month mod 12
      in DayFromYear ym + monthStart mn (if isLeapYear ym then 1 else 0) + dt - 1)"

definition MakeDate :: "int \<Rightarrow> int \<Rightarrow> int" where
  "MakeDate day time = day * msPerDay + time"

definition LocalTime :: "int \<Rightarrow> timevalue \<Rightarrow> int" where
  "LocalTime tza t = t + tza"

definition UTC :: "int \<Rightarrow> int \<Rightarrow> timevalue" where
  "UTC tza t = t - tza"

text \<open>\<open>ToIntegerOrInfinity\<close> on a finite Number: truncation towards zero.\<close>

definition ToInteger :: "number \<Rightarrow> int" where
  "ToInteger x = (if 0 \<le> x then \<lfloor>x\<rfloor> else \<lceil>x\<rceil>)"

text \<open>
  \<open>new Date(year, month, date)\<close>: local midnight of that day; a year from 0 to 99
  stands for 1900 + year.
\<close>

definition newDateYMD :: "int \<Rightarrow> number \<Rightarrow> int \<Rightarrow> int \<Rightarrow> timevalue" where
  "newDateYMD tza year month dt =
     (let y = ToInteger year;
          yr = (if 0 \<le> y \<and> y \<le> 99 then 1900 + y else y)
      in UTC tza (MakeDate (MakeDay yr month dt) 0))"

definition getFullYear :: "int \<Rightarrow> timevalue \<Rightarrow> int" where
  "getFullYear tza t = YearFromTime (LocalTime tza t)"

definition getMonth :: "int \<Rightarrow> timevalue \<Rightarrow> int" where
  "getMonth tza t = MonthFromTime (LocalTime tza t)"

definition getDate :: "int \<Rightarrow> timevalue \<Rightarrow> int" where
  "getDate tza t = DateFromTime (LocalTime tza t)"

definition setDate :: "int \<Rightarrow> timevalue \<Rightarrow> int \<Rightarrow> timevalue" where
  "setDate tza t dt =
     (let lt = LocalTime tza t
      in UTC tza (MakeDate (MakeDay (YearFromTime lt) (MonthFromTime lt) dt)
                           (TimeWithinDay lt)))"

definition setMonth :: "int \<Rightarrow> timevalue \<Rightarrow> int \<Rightarrow> timevalue" where
  "setMonth tza t m =
     (let lt = LocalTime tza t
      in UTC tza (MakeDate (MakeDay (YearFromTime lt) m (DateFromTime lt))
                           (TimeWithinDay lt)))"

definition setFullYear :: "int \<Rightarrow> timevalue \<Rightarrow> int \<Rightarrow> timevalue" where
  "setFullYear tza t y =
     (let lt = LocalTime tza t
      in UTC tza (MakeDate (MakeDay y (MonthFromTime lt) (DateFromTime lt))
                           (TimeWithinDay lt)))"

section \<open>TaxRecord\<close>

text \<open>
  The paths of the TaxRecord schema that the virtual and the pre-save hook read or
  write; the other paths (userId, filingStatus, filingDate, status, documents, notes)
  are the extension part of the record, and the operations are defined on every
  extension. Every Number path of the schema has \<open>default: 0\<close>, so a document
  always holds a number there: \<open>newTaxRecord\<close> builds a document from the values a
  caller supplies, a missing one taking the schema default.
\<close>

record income =
  wages :: number
  dividends :: number
  capitalGains :: number
  businessIncome :: number
  otherIncome :: number

record deductions =
  standardDeduction :: number
  itemizedDeductions :: number
  totalDeductions :: number

record taxRecord =
  taxYear :: number
  income :: income
  deductions :: deductions
  taxableIncome :: number
  taxOwed :: number
  taxPaid :: number
  refundOrOwed :: number

record taxRecordInput =
  in_taxYear :: number
  in_wages :: "number option"
  in_dividends :: "number option"
  in_capitalGains :: "number option"
  in_businessIncome :: "number option"
  in_otherIncome :: "number option"
  in_standardDeduction :: "number option"
  in_itemizedDeductions :: "number option"
  in_totalDeductions :: "number option"
  in_taxableIncome :: "number option"
  in_taxOwed :: "number option"
  in_taxPaid :: "number option"
  in_refundOrOwed :: "number option"

fun default0 :: "number option \<Rightarrow> number" where
  "default0 None = 0"
| "default0 (Some n) = n"

definition newTaxRecord :: "taxRecordInput \<Rightarrow> taxRecord" where
  "newTaxRecord i =
     \<lparr> taxYear = in_taxYear i,
       income = \<lparr> wages = default0 (in_wages i),
                  dividends = default0 (in_dividends i),
                  capitalGains = default0 (in_capitalGains i),
                  businessIncome = default0 (in_businessIncome i),
                  otherIncome = default0 (in_otherIncome i) \<rparr>,
       deductions = \<lparr> standardDeduction = default0 (in_standardDeduction i),
                      itemizedDeductions = default0 (in_itemizedDeductions i),
                      totalDeductions = default0 (in_totalDeductions i) \<rparr>,
       taxableIncome = default0 (in_taxableIncome i),
       taxOwed = default0 (in_taxOwed i),
       taxPaid = default0 (in_taxPaid i),
       refundOrOwed = default0 (in_refundOrOwed i) \<rparr>"

text \<open>The virtual \<open>totalIncome\<close>.\<close>

definition totalIncome :: "'a taxRecord_scheme \<Rightarrow> number" where
  "totalIncome r =
     jsAdd (jsAdd (jsAdd (jsAdd (wages (income r)) (dividends (income r)))
                         (capitalGains (income r)))
                  (businessIncome (income r)))
           (otherIncome (income r))"

text \<open>The pre-save hook of the TaxRecord schema.\<close>

definition taxRecord_preSave :: "'a taxRecord_scheme \<Rightarrow> 'a taxRecord_scheme" where
  "taxRecord_preSave r =
     (let r1 = r\<lparr>taxableIncome := jsSub (totalIncome r) (totalDeductions (deductions r))\<rparr>;
          r2 = r1\<lparr>refundOrOwed := jsSub (taxPaid r1) (taxOwed r1)\<rparr>
      in r2)"

section \<open>Budget\<close>

text \<open>
  The paths of the Budget schema that the virtuals, the pre-save hook and the methods
  read or write; the other paths (userId, category, description, tags) are the
  extension part of the record, and the operations are defined on every extension.
  \<open>period\<close> and \<open>recurringSettings.frequency\<close> range over the same four
  strings. The paths \<open>year\<close>, \<open>month\<close>, \<open>week\<close>, \<open>quarter\<close>,
  \<open>lastAlertSent\<close>, \<open>frequency\<close>, \<open>endDate\<close> and \<open>nextDueDate\<close> have no
  default and may hold no value; the hook itself provides for a \<open>year\<close> without a
  value.
\<close>

datatype period = Weekly | Monthly | Quarterly | Yearly

datatype budgetStatus = Active | Completed | Paused | Exceeded

datatype transactionType = Expense | Income

datatype usage = UsageExceeded | UsageCritical | UsageWarning | UsageGood

record transaction =
  description :: string
  amount :: number
  date :: timevalue
  txType :: transactionType
  category :: "string option"
  txNotes :: "string option"

record thresholds =
  warning :: number
  critical :: number

record alerts =
  enabled :: bool
  thresholds :: thresholds
  lastAlertSent :: "timevalue option"

record recurringSettings =
  isRecurring :: bool
  frequency :: "period option"
  endDate :: "timevalue option"
  nextDueDate :: "timevalue option"

record budget =
  name :: string
  budgetedAmount :: number
  actualAmount :: number
  period :: period
  year :: "number option"
  month :: "number option"
  week :: "number option"
  quarter :: "number option"
  status :: budgetStatus
  transactions :: "transaction list"
  alerts :: alerts
  recurringSettings :: recurringSettings

text \<open>The virtuals \<open>remainingAmount\<close>, \<open>percentageUsed\<close>, \<open>usageStatus\<close> and
  \<open>totalTransactions\<close>.\<close>

definition remainingAmount :: "'a budget_scheme \<Rightarrow> number" where
  "remainingAmount b = jsSub (budgetedAmount b) (actualAmount b)"

definition percentageUsed :: "'a budget_scheme \<Rightarrow> number" where
  "percentageUsed b =
     (if budgetedAmount b = 0 then 0
      else Math_round (jsMul (jsDiv (actualAmount b) (budgetedAmount b)) 100))"

definition usageStatus :: "'a budget_scheme \<Rightarrow> usage" where
  "usageStatus b =
     (let percentage = percentageUsed b
      in if percentage \<ge> 100 then UsageExceeded
         else if percentage \<ge> critical (thresholds (alerts b)) then UsageCritical
         else if percentage \<ge> warning (thresholds (alerts b)) then UsageWarning
         else UsageGood)"

definition totalTransactions :: "'a budget_scheme \<Rightarrow> number" where
  "totalTransactions b =
     foldl (\<lambda>total t. if txType t = Expense then jsAdd total (amount t)
                       else jsSub total (amount t))
           0 (transactions b)"

text \<open>
  The pre-save hook of the Budget schema, statement by statement. Both reads of the
  clock in one run of the hook return the same time value \<open>now\<close>.
\<close>

definition preSave_year ::
  "int \<Rightarrow> timevalue \<Rightarrow> 'a budget_scheme \<Rightarrow> 'a budget_scheme" where
  "preSave_year tza now b =
     (if falsyNumber (year b) then b\<lparr>year := Some (of_int (getFullYear tza now))\<rparr>
      else b)"

text \<open>
  The week number is computed from \<open>this.year\<close>, which holds a value once
  \<open>preSave_year\<close> has run; the case of no value is not reached.
\<close>

definition weekNumber :: "int \<Rightarrow> timevalue \<Rightarrow> number \<Rightarrow> number" where
  "weekNumber tza now y =
     (let start = newDateYMD tza y 0 1;
          diff = now - start
      in Math_ceil (jsDiv (of_int diff) (7 * 24 * 60 * 60 * 1000)))"

definition preSave_period ::
  "int \<Rightarrow> timevalue \<Rightarrow> 'a budget_scheme \<Rightarrow> 'a budget_scheme" where
  "preSave_period tza now b =
     (if period b = Monthly \<and> falsyNumber (month b)
        then b\<lparr>month := Some (of_int (getMonth tza now + 1))\<rparr>
      else if period b = Quarterly \<and> falsyNumber (quarter b)
        then b\<lparr>quarter := Some (Math_ceil (jsDiv (of_int (getMonth tza now + 1)) 3))\<rparr>
      else if period b = Weekly \<and> falsyNumber (week b)
        then (case year b of
                Some y \<Rightarrow> b\<lparr>week := Some (weekNumber tza now y)\<rparr>
              | None \<Rightarrow> b)
      else b)"

definition preSave_actualAmount :: "'a budget_scheme \<Rightarrow> 'a budget_scheme" where
  "preSave_actualAmount b = b\<lparr>actualAmount := totalTransactions b\<rparr>"

definition preSave_status :: "'a budget_scheme \<Rightarrow> 'a budget_scheme" where
  "preSave_status b =
     (if percentageUsed b \<ge> 100 then b\<lparr>status := Exceeded\<rparr>
      else if status b = Exceeded \<and> percentageUsed b < 100 then b\<lparr>status := Active\<rparr>
      else b)"

definition nextDue :: "int \<Rightarrow> timevalue \<Rightarrow> period option \<Rightarrow> timevalue" where
  "nextDue tza now f =
     (case f of
        Some Weekly \<Rightarrow> setDate tza now (getDate tza now + 7)
      | Some Monthly \<Rightarrow> setMonth tza now (getMonth tza now + 1)
      | Some Quarterly \<Rightarrow> setMonth tza now (getMonth tza now + 3)
      | Some Yearly \<Rightarrow> setFullYear tza now (getFullYear tza now + 1)
      | None \<Rightarrow> now)"

definition preSave_nextDueDate ::
  "int \<Rightarrow> timevalue \<Rightarrow> 'a budget_scheme \<Rightarrow> 'a budget_scheme" where
  "preSave_nextDueDate tza now b =
     (if isRecurring (recurringSettings b) \<and> falsyDate (nextDueDate (recurringSettings b))
        then b\<lparr>recurringSettings :=
                 (recurringSettings b)
                   \<lparr>nextDueDate := Some (nextDue tza now (frequency (recurringSettings b)))\<rparr>\<rparr>
      else b)"

definition budget_preSave ::
  "int \<Rightarrow> timevalue \<Rightarrow> 'a budget_scheme \<Rightarrow> 'a budget_scheme" where
  "budget_preSave tza now b =
     preSave_nextDueDate tza now
       (preSave_status
         (preSave_actualAmount
           (preSave_period tza now
             (preSave_year tza now b))))"

text \<open>The method \<open>addTransaction\<close>: push, then save.\<close>

definition addTransaction ::
  "int \<Rightarrow> timevalue \<Rightarrow> transaction \<Rightarrow> 'a budget_scheme \<Rightarrow> 'a budget_scheme" where
  "addTransaction tza now t b =
     budget_preSave tza now (b\<lparr>transactions := transactions b @ [t]\<rparr>)"

text \<open>
  The method \<open>shouldSendAlert\<close>. It returns its answer together with the document as
  the call leaves it.
\<close>

definition shouldSendAlert ::
  "timevalue \<Rightarrow> 'a budget_scheme \<Rightarrow> bool \<times> 'a budget_scheme" where
  "shouldSendAlert now b =
     (if \<not> enabled (alerts b) then (False, b)
      else
        let percentage = percentageUsed b;
            lastAlert = lastAlertSent (alerts b)
        in case lastAlert of
             Some l \<Rightarrow>
               if now - l < 24 * 60 * 60 * 1000 then (False, b)
               else (percentage \<ge> warning (thresholds (alerts b)), b)
           | None \<Rightarrow> (percentage \<ge> warning (thresholds (alerts b)), b))"

section \<open>EstatePlan\<close>

text \<open>
  The paths of the EstatePlan schema that the virtual, the pre-save hook and
  \<open>needsReview\<close> read or write; the other paths (beneficiaries, executor,
  guardianship, documents, attorneyInfo and the rest, and the beneficiaries of an
  asset) are the extension part of the record, and the operations are defined on
  every extension. The schema requires \<open>estimatedValue\<close>, yet the virtual provides
  for an asset without one (\<open>asset.estimatedValue || 0\<close>); the path is an
  \<open>option\<close>, so that this is a branch of the model.
\<close>

datatype estateStatus = Draft | InProgress | EstateCompleted | NeedsUpdate

datatype assetType =
  RealEstate | BankAccount | Investment | Business | PersonalProperty | Insurance
  | RetirementAccount

record asset =
  assetType :: assetType
  assetDescription :: string
  estimatedValue :: "number option"
  location :: "string option"
  accountNumber :: "string option"

record estatePlan =
  planName :: string
  assets :: "asset list"
  totalEstateValue :: number
  estimatedTaxLiability :: number
  lastReviewDate :: "timevalue option"
  nextReviewDate :: "timevalue option"
  estateStatus :: estateStatus

text \<open>\<open>x || 0\<close> on a Number path.\<close>

fun orZero :: "number option \<Rightarrow> number" where
  "orZero None = 0"
| "orZero (Some n) = (if n = 0 then 0 else n)"

definition calculatedEstateValue :: "'a estatePlan_scheme \<Rightarrow> number" where
  "calculatedEstateValue p =
     foldl (\<lambda>total a. jsAdd total (orZero (estimatedValue a))) 0 (assets p)"

definition estatePlan_preSave ::
  "int \<Rightarrow> timevalue \<Rightarrow> 'a estatePlan_scheme \<Rightarrow> 'a estatePlan_scheme" where
  "estatePlan_preSave tza now p =
     (let p1 = p\<lparr>totalEstateValue := calculatedEstateValue p\<rparr>
      in if falsyDate (nextReviewDate p1)
         then p1\<lparr>nextReviewDate := Some (setFullYear tza now (getFullYear tza now + 1))\<rparr>
         else p1)"

definition needsReview :: "timevalue \<Rightarrow> 'a estatePlan_scheme \<Rightarrow> bool" where
  "needsReview now p =
     (case nextReviewDate p of None \<Rightarrow> False | Some d \<Rightarrow> d \<le> now)"

text \<open>
  A document built from a name (and a budgeted amount) alone: every other path at its
  schema default, or without a value where the schema has no default.
\<close>

definition newBudget :: "string \<Rightarrow> number \<Rightarrow> budget" where
  "newBudget n a =
     \<lparr> name = n, budgetedAmount = a, actualAmount = 0, period = Monthly,
       year = None, month = None, week = None, quarter = None,
       status = Active, transactions = [],
       alerts = \<lparr> enabled = True,
                  thresholds = \<lparr> warning = 80, critical = 95 \<rparr>,
                  lastAlertSent = None \<rparr>,
       recurringSettings = \<lparr> isRecurring = False, frequency = None,
                             endDate = None, nextDueDate = None \<rparr> \<rparr>"

definition newEstatePlan :: "string \<Rightarrow> estatePlan" where
  "newEstatePlan n =
     \<lparr> planName = n, assets = [], totalEstateValue = 0, estimatedTaxLiability = 0,
       lastReviewDate = None, nextReviewDate = None, estateStatus = Draft \<rparr>"

section \<open>Notions used to state the properties\<close>

text \<open>The length of month \<open>m\<close> (0 to 11) of a year with leap flag \<open>leap\<close>.\<close>

definition DaysInMonth :: "int \<Rightarrow> int \<Rightarrow> int" where
  "DaysInMonth m leap =
     (if m = 1 then 28 + leap
      else if m = 3 \<or> m = 5 \<or> m = 8 \<or> m = 10 then 30
      else 31)"

definition leapFlag :: "int \<Rightarrow> int" where
  "leapFlag y = (if isLeapYear y then 1 else 0)"

text \<open>
  The time value of the local calendar date \<open>y\<close>, month \<open>m\<close>, day \<open>dt\<close> at \<open>tm\<close>
  milliseconds into the day. A month beyond 11 or a day beyond the end of the month
  runs over, as in MakeDay.
\<close>

definition localDateTime :: "int \<Rightarrow> int \<Rightarrow> int \<Rightarrow> int \<Rightarrow> int \<Rightarrow> timevalue" where
  "localDateTime tza y m dt tm = UTC tza (MakeDate (MakeDay y m dt) tm)"

definition getTimeOfDay :: "int \<Rightarrow> timevalue \<Rightarrow> int" where
  "getTimeOfDay tza t = TimeWithinDay (LocalTime tza t)"

text \<open>The local calendar fields of a time value: year, month (0 to 11), day of the
  month, and milliseconds into the day.\<close>

definition localFields :: "int \<Rightarrow> timevalue \<Rightarrow> int \<times> int \<times> int \<times> int" where
  "localFields tza t =
     (getFullYear tza t, getMonth tza t, getDate tza t, getTimeOfDay tza t)"


text \<open>
  A whole Number, and the sum of a list of Numbers as the language adds them, from
  the left.
\<close>

definition isWhole :: "number \<Rightarrow> bool" where
  "isWhole x = (x = of_int \<lfloor>x\<rfloor>)"

definition jsSum :: "number list \<Rightarrow> number" where
  "jsSum xs = foldl jsAdd 0 xs"

text \<open>
  Rounding half up: \<open>r\<close> is the integer nearest to \<open>x\<close>, the upper one of two
  that are equally near.
\<close>

definition roundHalfUp :: "number \<Rightarrow> number \<Rightarrow> bool" where
  "roundHalfUp x r = (r = of_int \<lfloor>r\<rfloor> \<and> r - 1 / 2 \<le> x \<and> x < r + 1 / 2)"

text \<open>The sums of the amounts of the transactions of one kind.\<close>

definition amountsOf :: "transactionType \<Rightarrow> 'a budget_scheme \<Rightarrow> number" where
  "amountsOf k b = sum_list (map amount (filter (\<lambda>t. txType t = k) (transactions b)))"

text \<open>
  Documents on which no addition rounds: the amounts (the values) are whole and
  non-negative, and all of them together come to at most \<open>2^53\<close>.
\<close>

definition wholeAmounts :: "'a budget_scheme \<Rightarrow> bool" where
  "wholeAmounts b =
     (list_all (\<lambda>t. isWhole (amount t) \<and> 0 \<le> amount t) (transactions b)
      \<and> sum_list (map amount (transactions b)) \<le> 2 ^ 53)"


text \<open>
  The \<open>min\<close> validator of a schema path: it passes a path that holds no value.
  Validation runs before the pre-save hooks.
\<close>

fun schemaMin :: "number \<Rightarrow> number option \<Rightarrow> bool" where
  "schemaMin lo None = True"
| "schemaMin lo (Some n) = (lo \<le> n)"

text \<open>The sum of the amounts of the transactions of one kind, as the language adds
  them.\<close>

definition jsAmountsOf :: "transactionType \<Rightarrow> 'a budget_scheme \<Rightarrow> number" where
  "jsAmountsOf k b = jsSum (map amount (filter (\<lambda>t. txType t = k) (transactions b)))"

text \<open>
  Calendar fields \<open>k\<close> calendar months later: the same day of the month and time of
  day in the month \<open>k\<close> months on, when that month has such a day; otherwise the days
  beyond its end are counted into the month after it.
\<close>

fun monthsLater :: "int \<Rightarrow> int \<times> int \<times> int \<times> int \<Rightarrow> int \<times> int \<times> int \<times> int" where
  "monthsLater k (y, m, d, tm) =
     (let y' = y + (m + k) div 12;
          m' = (m + k) mod 12;
          len = DaysInMonth m' (leapFlag y')
      in if d \<le> len then (y', m', d, tm)
         else (y' + (m' + 1) div 12, (m' + 1) mod 12, d - len, tm))"

text \<open>The date \<open>d\<close> lies in the calendar month \<open>k\<close> months after that of \<open>t\<close>.\<close>

definition inMonthAfter :: "int \<Rightarrow> int \<Rightarrow> timevalue \<Rightarrow> timevalue \<Rightarrow> bool" where
  "inMonthAfter tza k t d =
     (12 * getFullYear tza d + getMonth tza d
      = 12 * getFullYear tza t + getMonth tza t + k)"

section \<open>Example documents\<close>

text \<open>A tax record with income 80000, deductions 20000, tax paid 15000 and tax owed
  12000; the caller also supplies the two derived paths.\<close>

definition refundInput :: taxRecordInput where
  "refundInput =
     \<lparr> in_taxYear = 2023, in_wages = Some 70000, in_dividends = None,
       in_capitalGains = Some 10000, in_businessIncome = None, in_otherIncome = None,
       in_standardDeduction = None, in_itemizedDeductions = None,
       in_totalDeductions = Some 20000, in_taxableIncome = Some 1,
       in_taxOwed = Some 12000, in_taxPaid = Some 15000,
       in_refundOrOwed = Some 99 \<rparr>"

text \<open>A transaction of a given kind and amount.\<close>

definition tx :: "transactionType \<Rightarrow> number \<Rightarrow> transaction" where
  "tx k a =
     \<lparr> description = ''entry'', amount = a, date = 0, txType = k, category = None,
       txNotes = None \<rparr>"

text \<open>A paused budget of 100 with one expense of 150.\<close>

definition pausedOverspent :: budget where
  "pausedOverspent =
     (newBudget ''rent'' 100)
       \<lparr> year := Some 2024, month := Some 1, status := Paused,
         transactions := [tx Expense 150] \<rparr>"

text \<open>A paused budget of 200 with one expense of 150.\<close>

definition pausedWithin :: budget where
  "pausedWithin = pausedOverspent \<lparr> budgetedAmount := 200 \<rparr>"

text \<open>An exceeded budget of 100 with an expense of 120 and then an income of 30.\<close>

definition recovering :: budget where
  "recovering =
     (newBudget ''food'' 100)
       \<lparr> year := Some 2024, month := Some 1, actualAmount := 120, status := Exceeded,
         transactions := [tx Expense 120, tx Income 30] \<rparr>"

text \<open>A fresh budget of 100 whose only transaction is an income of 30.\<close>

definition refunded :: budget where
  "refunded =
     (newBudget ''gifts'' 100)
       \<lparr> year := Some 2024, month := Some 1, transactions := [tx Income 30] \<rparr>"

text \<open>A budget of 100 with 90 used, alerts enabled at the default warning threshold
  of 80, and a last alert sent at the given time.\<close>

definition alerted :: "timevalue \<Rightarrow> budget" where
  "alerted l =
     (newBudget ''fuel'' 100)
       \<lparr> actualAmount := 90,
         alerts := \<lparr> enabled = True,
                     thresholds = \<lparr> warning = 80, critical = 95 \<rparr>,
                     lastAlertSent = Some l \<rparr> \<rparr>"

text \<open>A recurring budget of a given frequency with no next due date.\<close>

definition recurring :: "period \<Rightarrow> budget" where
  "recurring f =
     (newBudget ''rent'' 1000)
       \<lparr> year := Some 2024, month := Some 1,
         recurringSettings := \<lparr> isRecurring = True, frequency = Some f,
                                 endDate = None, nextDueDate = None \<rparr> \<rparr>"

text \<open>A monthly recurring budget whose next due date is set.\<close>

definition dueAt :: "timevalue \<Rightarrow> budget" where
  "dueAt d =
     (recurring Monthly)
       \<lparr> recurringSettings := \<lparr> isRecurring = True, frequency = Some Monthly,
                                 endDate = None, nextDueDate = Some d \<rparr> \<rparr>"

text \<open>An estate plan with assets valued 100000, 50000 and 25000 and one asset with
  no value.\<close>

definition valued :: "number option \<Rightarrow> asset" where
  "valued v =
     \<lparr> assetType = Investment, assetDescription = ''asset'', estimatedValue = v,
       location = None, accountNumber = None \<rparr>"

definition estate :: estatePlan where
  "estate =
     (newEstatePlan ''family'')
       \<lparr> assets := [valued (Some 100000), valued None, valued (Some 50000),
                     valued (Some 25000)] \<rparr>"

text \<open>A weekly budget with neither year nor week.\<close>

definition weekly :: budget where
  "weekly = (newBudget ''groceries'' 100) \<lparr> period := Weekly \<rparr>"

text \<open>A budget of 200 with 29 used.\<close>

definition oddPercent :: budget where
  "oddPercent = (newBudget ''food'' 200) \<lparr> actualAmount := 29 \<rparr>"

text \<open>Budgets whose amounts are the binary64 values nearest to 0.1, 0.2 and 0.3: two
  expenses, and the same two expenses with an income between them.\<close>

definition tenths :: budget where
  "tenths =
     (newBudget ''food'' 100)
       \<lparr> year := Some 2024, month := Some 1,
         transactions := [tx Expense (fl (1 / 10)), tx Expense (fl (1 / 5))] \<rparr>"

definition interleaved :: budget where
  "interleaved =
     (newBudget ''food'' 100)
       \<lparr> year := Some 2024, month := Some 1,
         transactions := [tx Expense (fl (1 / 10)), tx Income (fl (3 / 10)),
                          tx Expense (fl (1 / 5))] \<rparr>"

text \<open>A quarterly budget of the year 2024 with no quarter, and a weekly budget of the
  year 2024 whose week is 0.\<close>

definition quarterly :: budget where
  "quarterly = (newBudget ''insurance'' 600) \<lparr> period := Quarterly, year := Some 2024 \<rparr>"

definition weekZero :: budget where
  "weekZero = weekly \<lparr> year := Some 2024, week := Some 0 \<rparr>"

section \<open>Facts about rounding to binary64\<close>

lemma floor_rat_numeral:
  "\<lfloor>(numeral a / numeral b :: rat)\<rfloor> = numeral a div numeral b"
  using floor_divide_of_int_eq [of "numeral a" "numeral b", where ?'a = rat] by simp

lemma ceiling_rat_numeral:
  "\<lceil>(numeral a / numeral b :: rat)\<rceil> = - ((- numeral a) div numeral b)"
proof -
  have "\<lceil>(numeral a / numeral b :: rat)\<rceil> = - \<lfloor>(of_int (- numeral a) / of_int (numeral b) :: rat)\<rfloor>"
    by (simp add: ceiling_def)
  then show ?thesis
    by (simp only: floor_divide_of_int_eq)
qed

lemmas fl_eval = fl_def quantum_def exponentOf_def pow2_def roundEven_def Let_def bits.simps
  jsAdd_def jsSub_def jsMul_def jsDiv_def floor_rat_numeral ceiling_rat_numeral

lemma bits_lower: "0 < n \<Longrightarrow> 2 ^ (bits n - 1) \<le> n"
proof (induction n rule: bits.induct)
  case (1 n)
  show ?case
  proof (cases "n div 2 = 0")
    case True
    then have "bits (n div 2) = 0"
      by (simp add: bits.simps)
    with 1(2) show ?thesis
      by (subst bits.simps) simp
  next
    case False
    then have p: "0 < n div 2"
      by simp
    from 1(2) have nz: "n \<noteq> 0"
      by simp
    have ih: "2 ^ (bits (n div 2) - 1) \<le> n div 2"
      by (rule 1(1) [OF nz p])
    have b: "0 < bits (n div 2)"
      using p by (subst bits.simps) simp
    have "bits n = Suc (bits (n div 2))"
      using nz by (subst bits.simps) simp
    then have "(2::nat) ^ (bits n - 1) = 2 * 2 ^ (bits (n div 2) - 1)"
      using b by (cases "bits (n div 2)") simp_all
    also have "\<dots> \<le> 2 * (n div 2)"
      using ih by simp
    also have "\<dots> \<le> n"
      by simp
    finally show ?thesis .
  qed
qed

lemma roundEven_of_int: "roundEven (of_int z) = z"
  by (simp add: roundEven_def)

lemma fl_of_int:
  assumes "\<bar>n\<bar> \<le> 2 ^ 53"
  shows "fl (of_int n) = of_int n"
proof (cases "n = 0")
  case True
  then show ?thesis
    by (simp add: fl_def)
next
  case False
  define N where "N = nat \<bar>n\<bar>"
  define e where "e = bits N - 1"
  have N: "0 < N" "N \<le> 2 ^ 53"
    using False assms by (simp_all add: N_def nat_le_iff)
  have ex: "exponentOf \<bar>of_int n\<bar> = int e"
  proof -
    have "1 \<le> \<bar>n\<bar>"
      using False by linarith
    then have "(of_int 1 :: rat) \<le> of_int \<bar>n\<bar>"
      by (simp only: of_int_le_iff)
    then have "(1::rat) \<le> \<bar>of_int n\<bar>"
      by simp
    moreover have "nat \<lfloor>\<bar>of_int n :: rat\<bar>\<rfloor> = N"
      by (simp add: N_def flip: of_int_abs)
    moreover have "0 < bits N"
      using N(1) by (subst bits.simps) simp
    ultimately show ?thesis
      by (simp add: exponentOf_def e_def)
  qed
  have le: "2 ^ e \<le> N"
    unfolding e_def by (rule bits_lower [OF N(1)])
  then have h: "(2::nat) ^ e \<le> 2 ^ 53"
    using N(2) by linarith
  have e53: "e \<le> 53"
    by (rule power_le_imp_le_exp [OF _ h]) simp
  have q: "quantum (of_int n) = pow2 (int e - 52)"
    by (simp add: quantum_def ex)
  show ?thesis
  proof (cases "e \<le> 52")
    case True
    define k where "k = 52 - e"
    have "pow2 (int e - 52) = 1 / 2 ^ k"
      using True by (cases "e = 52") (simp_all add: pow2_def k_def nat_diff_distrib)
    then have qq: "quantum (of_int n) = 1 / 2 ^ k"
      by (simp add: q)
    have "of_int n / quantum (of_int n) = (of_int (n * 2 ^ k) :: rat)"
      by (simp add: qq)
    then have "roundEven (of_int n / quantum (of_int n)) = n * 2 ^ k"
      by (simp only: roundEven_of_int)
    then show ?thesis
      using False by (simp add: fl_def qq)
  next
    case f: False
    with e53 have e: "e = 53"
      by simp
    from le e N(2) have "N = 2 ^ 53"
      by simp
    then have "\<bar>n\<bar> = 2 ^ 53"
      unfolding N_def by simp
    then have n: "n = 2 ^ 53 \<or> n = - (2 ^ 53)"
      by (simp add: abs_if split: if_splits)
    have qq: "quantum (of_int n) = 2"
      by (simp add: q e pow2_def)
    from n have "even n"
      by auto
    then obtain h where h: "n = 2 * h"
      by (elim evenE)
    have "(of_int n :: rat) / 2 = of_int h"
      by (simp add: h)
    then have r: "roundEven (of_int n / 2) = h"
      by (simp only: roundEven_of_int)
    have "fl (of_int n) = of_int h * 2"
      using False by (simp add: fl_def qq r)
    then show ?thesis
      by (simp add: h)
  qed
qed

lemma fl_whole:
  assumes "isWhole x" "\<bar>x\<bar> \<le> 2 ^ 53"
  shows "fl x = x"
proof -
  from assms(1) obtain n :: int where x: "x = of_int n"
    unfolding isWhole_def by blast
  have "(of_int \<bar>n\<bar> :: rat) \<le> of_int (2 ^ 53)"
    using assms(2) by (simp add: x)
  then have "\<bar>n\<bar> \<le> 2 ^ 53"
    by (simp only: of_int_le_iff)
  then show ?thesis
    unfolding x by (rule fl_of_int)
qed

lemma isWhole_of_int: "isWhole (of_int n)"
  by (simp add: isWhole_def)

lemma isWhole_add: "isWhole a \<Longrightarrow> isWhole b \<Longrightarrow> isWhole (a + b)"
  by (metis isWhole_def isWhole_of_int of_int_add)

lemma isWhole_diff: "isWhole a \<Longrightarrow> isWhole b \<Longrightarrow> isWhole (a - b)"
  by (metis isWhole_def isWhole_of_int of_int_diff)

lemma jsAdd_whole:
  "isWhole a \<Longrightarrow> isWhole b \<Longrightarrow> \<bar>a + b\<bar> \<le> 2 ^ 53 \<Longrightarrow> jsAdd a b = a + b"
  unfolding jsAdd_def by (rule fl_whole) (simp_all add: isWhole_add)

lemma jsSub_whole:
  "isWhole a \<Longrightarrow> isWhole b \<Longrightarrow> \<bar>a - b\<bar> \<le> 2 ^ 53 \<Longrightarrow> jsSub a b = a - b"
  unfolding jsSub_def by (rule fl_whole) (simp_all add: isWhole_diff)

section \<open>Facts about the calendar\<close>

lemma yearSearch_bounds:
  "DayFromYear (yearSearch d y) \<le> d \<and> d < DayFromYear (yearSearch d y + 1)"
proof (induction d y rule: yearSearch.induct)
  case (1 d y)
  show ?case
  proof (cases "d < DayFromYear y")
    case True
    then have "yearSearch d y = yearSearch d (y - 1)"
      by (subst yearSearch.simps) simp
    with 1(1) [OF True] show ?thesis by simp
  next
    case False
    show ?thesis
    proof (cases "DayFromYear (y + 1) \<le> d")
      case True
      with False have "yearSearch d y = yearSearch d (y + 1)"
        by (subst yearSearch.simps) simp
      with 1(2) [OF False True] show ?thesis by simp
    next
      case nle: False
      with False have "yearSearch d y = y"
        by (subst yearSearch.simps) simp
      with False nle show ?thesis by simp
    qed
  qed
qed

lemma DayFromYear_mono:
  assumes "y \<le> z"
  shows "DayFromYear y \<le> DayFromYear z"
  using assms
proof (induction z rule: int_ge_induct)
  case base
  show ?case by simp
next
  case (step i)
  then show ?case using DayFromYear_less [of i] by linarith
qed

lemma year_unique:
  assumes "DayFromYear y \<le> d" "d < DayFromYear (y + 1)"
    and "DayFromYear z \<le> d" "d < DayFromYear (z + 1)"
  shows "y = z"
proof (rule ccontr)
  assume "y \<noteq> z"
  then consider "y + 1 \<le> z" | "z + 1 \<le> y" by linarith
  then show False
  proof cases
    case 1
    from DayFromYear_mono [OF 1] assms show False by linarith
  next
    case 2
    from DayFromYear_mono [OF 2] assms show False by linarith
  qed
qed

lemma YearFromDay_eq:
  assumes "DayFromYear y \<le> d" "d < DayFromYear (y + 1)"
  shows "YearFromDay d = y"
proof -
  have "DayFromYear (YearFromDay d) \<le> d \<and> d < DayFromYear (YearFromDay d + 1)"
    unfolding YearFromDay_def by (rule yearSearch_bounds)
  then show ?thesis using assms year_unique by blast
qed

lemma YearFromDay_bounds:
  "DayFromYear (YearFromDay d) \<le> d" "d < DayFromYear (YearFromDay d + 1)"
  unfolding YearFromDay_def using yearSearch_bounds by blast+

lemma msPerDay_pos: "0 < msPerDay"
  by (simp add: msPerDay_def)

lemma Day_MakeDate:
  assumes "0 \<le> tm" "tm < msPerDay"
  shows "Day (MakeDate d tm) = d" "TimeWithinDay (MakeDate d tm) = tm"
proof -
  have e: "MakeDate d tm = msPerDay * d + tm"
    by (simp add: MakeDate_def)
  show "Day (MakeDate d tm) = d"
    unfolding Day_def by (rule int_div_pos_eq [OF e assms])
  show "TimeWithinDay (MakeDate d tm) = tm"
    unfolding TimeWithinDay_def by (rule int_mod_pos_eq [OF e assms])
qed

lemma MakeDate_Day: "MakeDate (Day t) (TimeWithinDay t) = t"
  by (simp add: MakeDate_def Day_def TimeWithinDay_def)

lemma TimeWithinDay_range: "0 \<le> TimeWithinDay t" "TimeWithinDay t < msPerDay"
  using msPerDay_pos by (simp_all add: TimeWithinDay_def)

lemma DayWithinYear_range:
  "0 \<le> DayWithinYear t" "DayWithinYear t < DaysInYear (YearFromTime t)"
  using YearFromDay_bounds [of "Day t"]
  by (simp_all add: DayWithinYear_def YearFromTime_def DayFromYear_Suc)

lemma monthOfDay_range: "0 \<le> monthOfDay dwy leap" "monthOfDay dwy leap < 12"
  by (simp_all add: monthOfDay_def)

lemma MonthFromTime_range: "0 \<le> MonthFromTime t" "MonthFromTime t < 12"
  unfolding MonthFromTime_def by (rule monthOfDay_range)+

text \<open>The day of a time value, rebuilt from its own fields and moved by \<open>k\<close> days.\<close>

lemma MakeDay_fields:
  "MakeDay (YearFromTime t) (MonthFromTime t) (DateFromTime t + k) = Day t + k"
proof -
  have m: "MonthFromTime t div 12 = 0" "MonthFromTime t mod 12 = MonthFromTime t"
    using MonthFromTime_range [of t] by simp_all
  show ?thesis
    unfolding MakeDay_def Let_def m
    by (simp add: DateFromTime_def DayWithinYear_def InLeapYear_def)
qed

lemma setDate_add:
  "setDate tza t (getDate tza t + k) = t + k * msPerDay"
proof -
  have "MakeDate (Day (t + tza) + k) (TimeWithinDay (t + tza)) = t + tza + k * msPerDay"
    using MakeDate_Day [of "t + tza"] by (simp add: MakeDate_def algebra_simps)
  then show ?thesis
    by (simp add: setDate_def getDate_def LocalTime_def UTC_def Let_def MakeDay_fields)
qed

lemma month_cases:
  assumes "0 \<le> m" "m < 12"
  obtains "m = 0" | "m = 1" | "m = 2" | "m = 3" | "m = 4" | "m = 5"
    | "m = 6" | "m = 7" | "m = 8" | "m = 9" | "m = 10" | "(m::int) = 11"
proof -
  have "m = 0 \<or> m = 1 \<or> m = 2 \<or> m = 3 \<or> m = 4 \<or> m = 5
      \<or> m = 6 \<or> m = 7 \<or> m = 8 \<or> m = 9 \<or> m = 10 \<or> m = 11"
    using assms by presburger
  with that show thesis
    by blast
qed

lemma monthOfDay_monthStart:
  assumes "0 \<le> m" "m < 12" "1 \<le> dt" "dt \<le> DaysInMonth m leap" "leap = 0 \<or> leap = 1"
  shows "monthOfDay (monthStart m leap + dt - 1) leap = m"
  using assms(1,2)
proof (cases m rule: month_cases)
qed (use assms(3-5) in \<open>auto simp: monthOfDay_def monthStart_def DaysInMonth_def\<close>)

lemma monthStart_range:
  assumes "0 \<le> m" "m < 12" "1 \<le> dt" "dt \<le> DaysInMonth m leap" "leap = 0 \<or> leap = 1"
  shows "0 \<le> monthStart m leap + dt - 1" "monthStart m leap + dt - 1 < 365 + leap"
  using assms(1,2)
proof (cases m rule: month_cases)
qed (use assms(3-5) in \<open>auto simp: monthStart_def DaysInMonth_def\<close>)

lemma MakeDay_civil:
  assumes m: "0 \<le> m" "m < 12"
    and dt: "1 \<le> dt" "dt \<le> DaysInMonth m (leapFlag y)"
    and tm: "0 \<le> tm" "tm < msPerDay"
  defines "t \<equiv> MakeDate (MakeDay y m dt) tm"
  shows "YearFromTime t = y" "MonthFromTime t = m" "DateFromTime t = dt"
    "TimeWithinDay t = tm"
proof -
  have lf: "leapFlag y = 0 \<or> leapFlag y = 1"
    by (simp add: leapFlag_def)
  have mm: "m div 12 = 0" "m mod 12 = m"
    using m by simp_all
  have day: "Day t = DayFromYear y + (monthStart m (leapFlag y) + dt - 1)"
    unfolding t_def Day_MakeDate(1) [OF tm] MakeDay_def Let_def mm leapFlag_def by simp
  have r: "0 \<le> monthStart m (leapFlag y) + dt - 1"
      "monthStart m (leapFlag y) + dt - 1 < 365 + leapFlag y"
    by (rule monthStart_range [OF m dt lf])+
  have diy: "DaysInYear y = 365 + leapFlag y"
    by (simp add: DaysInYear_def leapFlag_def)
  show y: "YearFromTime t = y"
    unfolding YearFromTime_def
    by (rule YearFromDay_eq) (use day r diy in \<open>simp_all add: DayFromYear_Suc\<close>)
  have dwy: "DayWithinYear t = monthStart m (leapFlag y) + dt - 1"
    unfolding DayWithinYear_def y day by simp
  have il: "InLeapYear t = leapFlag y"
    by (simp add: InLeapYear_def y leapFlag_def)
  show mo: "MonthFromTime t = m"
    unfolding MonthFromTime_def dwy il by (rule monthOfDay_monthStart [OF m dt lf])
  show "DateFromTime t = dt"
    unfolding DateFromTime_def mo dwy il by simp
  show "TimeWithinDay t = tm"
    unfolding t_def by (rule Day_MakeDate(2) [OF tm])
qed

lemma MakeDay_normal:
  "MakeDay y m dt = MakeDay (y + m div 12) (m mod 12) dt"
  by (simp add: MakeDay_def Let_def)

lemma monthStart_monthOfDay:
  assumes "0 \<le> dwy" "leap = 0 \<or> leap = 1"
  shows "monthStart (monthOfDay dwy leap) leap \<le> dwy"
  using assms by (auto simp: monthStart_def monthOfDay_def)

lemma DateFromTime_pos: "1 \<le> DateFromTime t"
proof -
  have "InLeapYear t = 0 \<or> InLeapYear t = 1"
    by (simp add: InLeapYear_def)
  from monthStart_monthOfDay [OF DayWithinYear_range(1) this, of t]
  show ?thesis
    by (simp add: DateFromTime_def MonthFromTime_def)
qed

subsection \<open>Setters and getters\<close>

lemma LocalTime_UTC: "LocalTime tza (UTC tza x) = x"
  by (simp add: LocalTime_def UTC_def)

lemma setMonth_localDateTime:
  "setMonth tza t (getMonth tza t + k)
   = localDateTime tza (getFullYear tza t) (getMonth tza t + k) (getDate tza t)
       (getTimeOfDay tza t)"
  by (simp add: setMonth_def localDateTime_def getFullYear_def getMonth_def getDate_def
      getTimeOfDay_def Let_def)

lemma setFullYear_localDateTime:
  "setFullYear tza t (getFullYear tza t + k)
   = localDateTime tza (getFullYear tza t + k) (getMonth tza t) (getDate tza t)
       (getTimeOfDay tza t)"
  by (simp add: setFullYear_def localDateTime_def getFullYear_def getMonth_def getDate_def
      getTimeOfDay_def Let_def)

lemma localDateTime_fields:
  assumes "1 \<le> dt" "dt \<le> DaysInMonth (m mod 12) (leapFlag (y + m div 12))"
    and "0 \<le> tm" "tm < msPerDay"
  shows "getFullYear tza (localDateTime tza y m dt tm) = y + m div 12"
    and "getMonth tza (localDateTime tza y m dt tm) = m mod 12"
    and "getDate tza (localDateTime tza y m dt tm) = dt"
    and "getTimeOfDay tza (localDateTime tza y m dt tm) = tm"
proof -
  have r: "0 \<le> m mod 12" "m mod 12 < 12"
    by simp_all
  have e: "LocalTime tza (localDateTime tza y m dt tm)
           = MakeDate (MakeDay (y + m div 12) (m mod 12) dt) tm"
    unfolding localDateTime_def LocalTime_UTC by (subst MakeDay_normal) (rule refl)
  show "getFullYear tza (localDateTime tza y m dt tm) = y + m div 12"
    unfolding getFullYear_def e by (rule MakeDay_civil(1) [OF r assms])
  show "getMonth tza (localDateTime tza y m dt tm) = m mod 12"
    unfolding getMonth_def e by (rule MakeDay_civil(2) [OF r assms])
  show "getDate tza (localDateTime tza y m dt tm) = dt"
    unfolding getDate_def e by (rule MakeDay_civil(3) [OF r assms])
  show "getTimeOfDay tza (localDateTime tza y m dt tm) = tm"
    unfolding getTimeOfDay_def e by (rule MakeDay_civil(4) [OF r assms])
qed

lemma getDate_pos: "1 \<le> getDate tza t"
  unfolding getDate_def by (rule DateFromTime_pos)

lemma getTimeOfDay_range: "0 \<le> getTimeOfDay tza t" "getTimeOfDay tza t < msPerDay"
  unfolding getTimeOfDay_def by (rule TimeWithinDay_range)+

lemma getMonth_range: "0 \<le> getMonth tza t" "getMonth tza t < 12"
  unfolding getMonth_def by (rule MonthFromTime_range)+

text \<open>The first of January of a year outside 0 to 99, at local midnight.\<close>

lemma newDateYMD_january:
  assumes "k < 0 \<or> 99 < k"
  shows "getFullYear tza (newDateYMD tza (of_int k) 0 1) = k"
    and "getMonth tza (newDateYMD tza (of_int k) 0 1) = 0"
    and "getDate tza (newDateYMD tza (of_int k) 0 1) = 1"
    and "getTimeOfDay tza (newDateYMD tza (of_int k) 0 1) = 0"
proof -
  have i: "ToInteger (of_int k) = k"
    by (simp add: ToInteger_def)
  have n: "\<not> (0 \<le> k \<and> k \<le> 99)"
    using assms by linarith
  have e: "newDateYMD tza (of_int k) 0 1 = localDateTime tza k 0 1 0"
    unfolding newDateYMD_def localDateTime_def i Let_def by (simp only: n if_False)
  have d: "(1::int) \<le> DaysInMonth (0 mod 12) (leapFlag (k + 0 div 12))"
    by (simp add: DaysInMonth_def)
  have z: "(0::int) \<le> 0" "0 < msPerDay"
    by (simp_all add: msPerDay_def)
  note f = localDateTime_fields [OF order_refl d z, of tza]
  show "getFullYear tza (newDateYMD tza (of_int k) 0 1) = k"
    unfolding e using f(1) by simp
  show "getMonth tza (newDateYMD tza (of_int k) 0 1) = 0"
    unfolding e using f(2) by simp
  show "getDate tza (newDateYMD tza (of_int k) 0 1) = 1"
    unfolding e by (rule f)
  show "getTimeOfDay tza (newDateYMD tza (of_int k) 0 1) = 0"
    unfolding e by (rule f)
qed

text \<open>Concrete days.\<close>

lemma fields_of_day:
  assumes "Day (LocalTime tza t) = DayFromYear y + monthStart m (leapFlag y) + dt - 1"
    and "0 \<le> m" "m < 12" "1 \<le> dt" "dt \<le> DaysInMonth m (leapFlag y)"
  shows "getFullYear tza t = y" "getMonth tza t = m" "getDate tza t = dt"
proof -
  have e: "LocalTime tza t = MakeDate (MakeDay y m dt) (TimeWithinDay (LocalTime tza t))"
  proof -
    have mm: "m div 12 = 0" "m mod 12 = m"
      using assms(2,3) by simp_all
    have "MakeDay y m dt = Day (LocalTime tza t)"
      unfolding MakeDay_def Let_def mm assms(1) by (simp add: leapFlag_def)
    then show ?thesis
      by (simp add: MakeDate_Day)
  qed
  note f = MakeDay_civil [OF assms(2-5) TimeWithinDay_range, of "LocalTime tza t"]
  show "getFullYear tza t = y"
    unfolding getFullYear_def by (subst e) (rule f)
  show "getMonth tza t = m"
    unfolding getMonth_def by (subst e) (rule f)
  show "getDate tza t = dt"
    unfolding getDate_def by (subst e) (rule f)
qed

text \<open>The time value 1705312800000 is 2024-01-15 10:00 UTC.\<close>

lemma clock_2024_01_15:
  "getFullYear 0 1705312800000 = 2024"
  "getMonth 0 1705312800000 = 0"
  "getDate 0 1705312800000 = 15"
proof -
  have d: "Day (LocalTime 0 1705312800000)
           = DayFromYear 2024 + monthStart 0 (leapFlag 2024) + 15 - 1"
    by (simp add: Day_def LocalTime_def msPerDay_def DayFromYear_def monthStart_def)
  have r: "(0::int) \<le> 0" "(0::int) < 12" "(1::int) \<le> 15"
      "15 \<le> DaysInMonth 0 (leapFlag 2024)"
    by (simp_all add: DaysInMonth_def)
  show "getFullYear 0 1705312800000 = 2024"
    by (rule fields_of_day [OF d r])
  show "getMonth 0 1705312800000 = 0"
    by (rule fields_of_day [OF d r])
  show "getDate 0 1705312800000 = 15"
    by (rule fields_of_day [OF d r])
qed

subsection \<open>Calendar months and years\<close>

lemma DateFromTime_le:
  "DateFromTime t \<le> DaysInMonth (MonthFromTime t) (InLeapYear t)"
proof -
  have l: "InLeapYear t = 0 \<or> InLeapYear t = 1"
    by (simp add: InLeapYear_def)
  have r: "0 \<le> DayWithinYear t" "DayWithinYear t < 365 + InLeapYear t"
    using DayWithinYear_range [of t]
    by (simp_all add: DaysInYear_def InLeapYear_def split: if_splits)
  have "dwy - monthStart (monthOfDay dwy leap) leap + 1 \<le> DaysInMonth (monthOfDay dwy leap) leap"
    if "dwy < 365 + leap" "leap = 0 \<or> leap = 1" for dwy leap :: int
    using that by (auto simp: monthOfDay_def monthStart_def DaysInMonth_def)
  from this [OF r(2) l] show ?thesis
    by (simp add: DateFromTime_def MonthFromTime_def)
qed

lemma getDate_le:
  "getDate tza t \<le> DaysInMonth (getMonth tza t) (leapFlag (getFullYear tza t))"
  using DateFromTime_le [of "LocalTime tza t"]
  by (simp add: getDate_def getMonth_def getFullYear_def InLeapYear_def leapFlag_def)


section \<open>What each statement of the Budget hook leaves alone\<close>

lemma preSave_year_other:
  "name (preSave_year tza now b) = name b"
  "budgetedAmount (preSave_year tza now b) = budgetedAmount b"
  "actualAmount (preSave_year tza now b) = actualAmount b"
  "period (preSave_year tza now b) = period b"
  "month (preSave_year tza now b) = month b"
  "week (preSave_year tza now b) = week b"
  "quarter (preSave_year tza now b) = quarter b"
  "status (preSave_year tza now b) = status b"
  "transactions (preSave_year tza now b) = transactions b"
  "alerts (preSave_year tza now b) = alerts b"
  "recurringSettings (preSave_year tza now b) = recurringSettings b"
  "budget.more (preSave_year tza now b) = budget.more b"
  by (simp_all add: preSave_year_def)

lemma preSave_period_other:
  "name (preSave_period tza now b) = name b"
  "budgetedAmount (preSave_period tza now b) = budgetedAmount b"
  "actualAmount (preSave_period tza now b) = actualAmount b"
  "period (preSave_period tza now b) = period b"
  "year (preSave_period tza now b) = year b"
  "status (preSave_period tza now b) = status b"
  "transactions (preSave_period tza now b) = transactions b"
  "alerts (preSave_period tza now b) = alerts b"
  "recurringSettings (preSave_period tza now b) = recurringSettings b"
  "budget.more (preSave_period tza now b) = budget.more b"
  by (simp_all add: preSave_period_def split: option.split)

lemma preSave_actualAmount_other:
  "name (preSave_actualAmount b) = name b"
  "budgetedAmount (preSave_actualAmount b) = budgetedAmount b"
  "period (preSave_actualAmount b) = period b"
  "year (preSave_actualAmount b) = year b"
  "month (preSave_actualAmount b) = month b"
  "week (preSave_actualAmount b) = week b"
  "quarter (preSave_actualAmount b) = quarter b"
  "status (preSave_actualAmount b) = status b"
  "transactions (preSave_actualAmount b) = transactions b"
  "alerts (preSave_actualAmount b) = alerts b"
  "recurringSettings (preSave_actualAmount b) = recurringSettings b"
  "budget.more (preSave_actualAmount b) = budget.more b"
  by (simp_all add: preSave_actualAmount_def)

lemma preSave_status_other:
  "name (preSave_status b) = name b"
  "budgetedAmount (preSave_status b) = budgetedAmount b"
  "actualAmount (preSave_status b) = actualAmount b"
  "period (preSave_status b) = period b"
  "year (preSave_status b) = year b"
  "month (preSave_status b) = month b"
  "week (preSave_status b) = week b"
  "quarter (preSave_status b) = quarter b"
  "transactions (preSave_status b) = transactions b"
  "alerts (preSave_status b) = alerts b"
  "recurringSettings (preSave_status b) = recurringSettings b"
  "budget.more (preSave_status b) = budget.more b"
  by (simp_all add: preSave_status_def)

lemma preSave_nextDueDate_other:
  "name (preSave_nextDueDate tza now b) = name b"
  "budgetedAmount (preSave_nextDueDate tza now b) = budgetedAmount b"
  "actualAmount (preSave_nextDueDate tza now b) = actualAmount b"
  "period (preSave_nextDueDate tza now b) = period b"
  "year (preSave_nextDueDate tza now b) = year b"
  "month (preSave_nextDueDate tza now b) = month b"
  "week (preSave_nextDueDate tza now b) = week b"
  "quarter (preSave_nextDueDate tza now b) = quarter b"
  "status (preSave_nextDueDate tza now b) = status b"
  "transactions (preSave_nextDueDate tza now b) = transactions b"
  "alerts (preSave_nextDueDate tza now b) = alerts b"
  "budget.more (preSave_nextDueDate tza now b) = budget.more b"
  by (simp_all add: preSave_nextDueDate_def)

lemmas preSave_other =
  preSave_year_other preSave_period_other preSave_actualAmount_other
  preSave_status_other preSave_nextDueDate_other

lemma percentageUsed_cong:
  "actualAmount a = actualAmount b \<Longrightarrow> budgetedAmount a = budgetedAmount b
   \<Longrightarrow> percentageUsed a = percentageUsed b"
  by (simp add: percentageUsed_def)

lemma totalTransactions_cong:
  "transactions a = transactions b \<Longrightarrow> totalTransactions a = totalTransactions b"
  by (simp add: totalTransactions_def)

section \<open>The paths of a saved Budget\<close>

lemma budget_preSave_kept:
  "name (budget_preSave tza now b) = name b"
  "budgetedAmount (budget_preSave tza now b) = budgetedAmount b"
  "period (budget_preSave tza now b) = period b"
  "transactions (budget_preSave tza now b) = transactions b"
  "alerts (budget_preSave tza now b) = alerts b"
  "budget.more (budget_preSave tza now b) = budget.more b"
  by (simp_all add: budget_preSave_def preSave_other)

lemma budget_preSave_year:
  "year (budget_preSave tza now b) =
     (if falsyNumber (year b) then Some (of_int (getFullYear tza now)) else year b)"
  by (simp add: budget_preSave_def preSave_other) (simp add: preSave_year_def)

lemma budget_preSave_actualAmount:
  "actualAmount (budget_preSave tza now b) = totalTransactions b"
proof -
  have "actualAmount (budget_preSave tza now b)
        = totalTransactions (preSave_period tza now (preSave_year tza now b))"
    by (simp add: budget_preSave_def preSave_other) (simp add: preSave_actualAmount_def)
  also have "\<dots> = totalTransactions b"
    by (rule totalTransactions_cong) (simp add: preSave_other)
  finally show ?thesis .
qed

lemma budget_preSave_percentageUsed:
  "percentageUsed (budget_preSave tza now b) = percentageUsed (b\<lparr>actualAmount := totalTransactions b\<rparr>)"
  by (rule percentageUsed_cong) (simp_all add: budget_preSave_actualAmount budget_preSave_kept)

lemma budget_preSave_status:
  "status (budget_preSave tza now b) =
     (if percentageUsed (budget_preSave tza now b) \<ge> 100 then Exceeded
      else if status b = Exceeded then Active
      else status b)"
proof -
  let ?c = "preSave_actualAmount (preSave_period tza now (preSave_year tza now b))"
  have p: "percentageUsed (budget_preSave tza now b) = percentageUsed ?c"
    by (rule percentageUsed_cong) (simp_all add: budget_preSave_def preSave_other)
  have s: "status ?c = status b"
    by (simp add: preSave_other)
  have "status (budget_preSave tza now b) = status (preSave_status ?c)"
    by (simp add: budget_preSave_def preSave_other)
  also have "\<dots> = (if percentageUsed ?c \<ge> 100 then Exceeded
      else if status ?c = Exceeded then Active else status ?c)"
    by (simp add: preSave_status_def)
  finally show ?thesis
    unfolding p s .
qed

section \<open>Totals\<close>

text \<open>The running total is exact on whole amounts of bounded size.\<close>

lemma foldl_totalTransactions:
  assumes "list_all (\<lambda>t. isWhole (amount t) \<and> 0 \<le> amount t) ts"
    and "isWhole acc"
    and "\<bar>acc\<bar> + sum_list (map amount ts) \<le> 2 ^ 53"
  shows "foldl (\<lambda>total t. if txType t = Expense then jsAdd total (amount t)
                         else jsSub total (amount t)) acc ts
   = acc + sum_list (map amount (filter (\<lambda>t. txType t = Expense) ts))
         - sum_list (map amount (filter (\<lambda>t. txType t = Income) ts))"
  using assms
proof (induction ts arbitrary: acc)
  case Nil
  show ?case by simp
next
  case (Cons t ts)
  from Cons.prems(1) have t: "isWhole (amount t)" "0 \<le> amount t"
    and ts: "list_all (\<lambda>t. isWhole (amount t) \<and> 0 \<le> amount t) ts"
    by simp_all
  have nn: "0 \<le> sum_list (map amount ts)"
    using ts by (induction ts) simp_all
  from Cons.prems(3) have b: "\<bar>acc\<bar> + amount t + sum_list (map amount ts) \<le> 2 ^ 53"
    by simp
  show ?case
  proof (cases "txType t")
    case Expense
    have "\<bar>acc + amount t\<bar> \<le> 2 ^ 53"
      using b nn t(2) by linarith
    then have e: "jsAdd acc (amount t) = acc + amount t"
      by (rule jsAdd_whole [OF Cons.prems(2) t(1)])
    have "\<bar>acc + amount t\<bar> + sum_list (map amount ts) \<le> 2 ^ 53"
      using b t(2) by linarith
    from Cons.IH [OF ts isWhole_add [OF Cons.prems(2) t(1)] this] Expense e
    show ?thesis by simp
  next
    case Income
    have "\<bar>acc - amount t\<bar> \<le> 2 ^ 53"
      using b nn t(2) by linarith
    then have e: "jsSub acc (amount t) = acc - amount t"
      by (rule jsSub_whole [OF Cons.prems(2) t(1)])
    have "\<bar>acc - amount t\<bar> + sum_list (map amount ts) \<le> 2 ^ 53"
      using b t(2) by linarith
    from Cons.IH [OF ts isWhole_diff [OF Cons.prems(2) t(1)] this] Income e
    show ?thesis by simp
  qed
qed

lemma totalTransactions_amountsOf:
  assumes "wholeAmounts b"
  shows "totalTransactions b = amountsOf Expense b - amountsOf Income b"
proof -
  have "isWhole 0"
    by (simp add: isWhole_def)
  moreover have "\<bar>0::rat\<bar> + sum_list (map amount (transactions b)) \<le> 2 ^ 53"
    using assms by (simp add: wholeAmounts_def)
  moreover have "list_all (\<lambda>t. isWhole (amount t) \<and> 0 \<le> amount t) (transactions b)"
    using assms by (simp add: wholeAmounts_def)
  ultimately show ?thesis
    unfolding totalTransactions_def amountsOf_def
    using foldl_totalTransactions [of "transactions b" 0] by simp
qed

section \<open>Recurrence and estate totals\<close>

lemma budget_preSave_recurringSettings:
  "recurringSettings (budget_preSave tza now b) =
     (if isRecurring (recurringSettings b) \<and> falsyDate (nextDueDate (recurringSettings b))
      then (recurringSettings b)
             \<lparr>nextDueDate := Some (nextDue tza now (frequency (recurringSettings b)))\<rparr>
      else recurringSettings b)"
  by (simp add: budget_preSave_def preSave_nextDueDate_def preSave_other)





section \<open>The period paths of a saved Budget\<close>

lemma budget_preSave_year_Some:
  "\<exists>y. year (budget_preSave tza now b) = Some y"
  by (cases "year b") (simp_all add: budget_preSave_year)

lemma budget_preSave_month:
  "month (budget_preSave tza now b) =
     (if period b = Monthly \<and> falsyNumber (month b)
      then Some (of_int (getMonth tza now + 1)) else month b)"
proof -
  let ?a = "preSave_year tza now b"
  have "month (budget_preSave tza now b) = month (preSave_period tza now ?a)"
    by (simp add: budget_preSave_def preSave_other)
  also have "\<dots> = (if period ?a = Monthly \<and> falsyNumber (month ?a)
      then Some (of_int (getMonth tza now + 1)) else month ?a)"
    by (simp add: preSave_period_def split: option.split)
  finally show ?thesis
    by (simp add: preSave_other)
qed

lemma budget_preSave_quarter:
  "quarter (budget_preSave tza now b) =
     (if period b = Quarterly \<and> falsyNumber (quarter b)
      then Some (Math_ceil (jsDiv (of_int (getMonth tza now + 1)) 3)) else quarter b)"
proof -
  let ?a = "preSave_year tza now b"
  have "quarter (budget_preSave tza now b) = quarter (preSave_period tza now ?a)"
    by (simp add: budget_preSave_def preSave_other)
  also have "\<dots> = (if period ?a = Quarterly \<and> falsyNumber (quarter ?a)
      then Some (Math_ceil (jsDiv (of_int (getMonth tza now + 1)) 3)) else quarter ?a)"
    by (simp add: preSave_period_def split: option.split)
  finally show ?thesis
    by (simp add: preSave_other)
qed

lemma budget_preSave_week:
  assumes "year (budget_preSave tza now b) = Some y"
  shows "week (budget_preSave tza now b) =
     (if period b = Weekly \<and> falsyNumber (week b)
      then Some (weekNumber tza now y) else week b)"
proof -
  let ?a = "preSave_year tza now b"
  have y: "year ?a = Some y"
    using assms by (simp add: budget_preSave_def preSave_other)
  have "week (budget_preSave tza now b) = week (preSave_period tza now ?a)"
    by (simp add: budget_preSave_def preSave_other)
  also have "\<dots> = (if period ?a = Weekly \<and> falsyNumber (week ?a)
      then Some (weekNumber tza now y) else week ?a)"
    by (simp add: preSave_period_def y)
  finally show ?thesis
    by (simp add: preSave_other)
qed

lemma falsyNumber_schemaMin:
  "v \<noteq> None \<Longrightarrow> schemaMin 1 v \<Longrightarrow> \<not> falsyNumber v"
  "v \<noteq> None \<Longrightarrow> schemaMin 2000 v \<Longrightarrow> \<not> falsyNumber v"
  by (cases v; simp)+

section \<open>Saving twice\<close>

lemma taxRecord_preSave_idem:
  "taxRecord_preSave (taxRecord_preSave r) = taxRecord_preSave r"
  by (simp add: taxRecord_preSave_def totalIncome_def Let_def)

lemma estatePlan_preSave_idem:
  "estatePlan_preSave tza now (estatePlan_preSave tza now p) = estatePlan_preSave tza now p"
  by (simp add: estatePlan_preSave_def calculatedEstateValue_def Let_def)

lemma budget_preSave_idem:
  "budget_preSave tza now (budget_preSave tza now b) = budget_preSave tza now b"
proof -
  let ?c = "budget_preSave tza now b"
  let ?d = "budget_preSave tza now ?c"
  obtain y where y: "year ?c = Some y"
    using budget_preSave_year_Some by blast
  have yy: "year ?d = year ?c"
    by (simp add: budget_preSave_year [of tza now ?c]) (simp add: budget_preSave_year)
  have p: "percentageUsed ?d = percentageUsed ?c"
    by (rule percentageUsed_cong)
      (simp_all add: budget_preSave_actualAmount budget_preSave_kept
        totalTransactions_cong [of ?c b])
  show ?thesis
  proof (rule budget.equality)
    show "name ?d = name ?c" "budgetedAmount ?d = budgetedAmount ?c"
      "period ?d = period ?c" "transactions ?d = transactions ?c"
      "alerts ?d = alerts ?c" "budget.more ?d = budget.more ?c"
      by (simp_all add: budget_preSave_kept)
    show "year ?d = year ?c"
      by (rule yy)
    show "actualAmount ?d = actualAmount ?c"
      by (simp add: budget_preSave_actualAmount budget_preSave_kept
          totalTransactions_cong [of ?c b])
    show "month ?d = month ?c"
      by (simp add: budget_preSave_month [of tza now ?c] budget_preSave_kept)
        (simp add: budget_preSave_month)
    show "quarter ?d = quarter ?c"
      by (simp add: budget_preSave_quarter [of tza now ?c] budget_preSave_kept)
        (simp add: budget_preSave_quarter)
    show "week ?d = week ?c"
      using yy y
      by (simp add: budget_preSave_week [of tza now ?c y] budget_preSave_kept)
        (simp add: budget_preSave_week [of tza now b y])
    show "status ?d = status ?c"
      by (simp add: budget_preSave_status [of tza now ?c] p)
        (simp add: budget_preSave_status [of tza now b])
    show "recurringSettings ?d = recurringSettings ?c"
      by (simp add: budget_preSave_recurringSettings [of tza now ?c])
        (auto simp: budget_preSave_recurringSettings [of tza now b])
  qed
qed

section \<open>Rounding\<close>

lemma Math_round_roundHalfUp: "roundHalfUp x (Math_round x)"
proof -
  define k where "k = \<lfloor>x + 1 / 2\<rfloor>"
  have a: "of_int k \<le> x + 1 / 2"
    unfolding k_def by (rule of_int_floor_le)
  have b: "x + 1 / 2 < of_int k + 1"
    unfolding k_def using floor_correct [of "x + 1 / 2"] by simp
  have "roundHalfUp x (of_int k)"
    unfolding roundHalfUp_def using a b by simp
  then show ?thesis
    by (simp add: Math_round_def k_def)
qed

lemma roundHalfUp_unique:
  assumes "roundHalfUp x r" "roundHalfUp x s"
  shows "r = s"
proof -
  from assms have "of_int \<lfloor>r\<rfloor> - (1::rat) < of_int \<lfloor>s\<rfloor>" "of_int \<lfloor>s\<rfloor> - (1::rat) < of_int \<lfloor>r\<rfloor>"
    unfolding roundHalfUp_def by linarith+
  then have "\<lfloor>r\<rfloor> - 1 < \<lfloor>s\<rfloor>" "\<lfloor>s\<rfloor> - 1 < \<lfloor>r\<rfloor>"
    by linarith+
  then have "\<lfloor>r\<rfloor> = \<lfloor>s\<rfloor>" by linarith
  with assms show ?thesis
    unfolding roundHalfUp_def by metis
qed

section \<open>Period paths, months later\<close>

lemma falsyNumber_iff: "falsyNumber v \<longleftrightarrow> v = None \<or> v = Some 0"
  by (cases v) simp_all

lemma quarterOfMonth:
  assumes "0 \<le> m" "m < 12"
  shows "Math_ceil (jsDiv (of_int (m + 1)) 3) = of_int \<lceil>(of_int (m + 1) :: rat) / 3\<rceil>"
  using assms
proof (cases m rule: month_cases)
  case 1
  have "\<lceil>(1 / 3 :: rat)\<rceil> = 1"
    by (simp add: ceiling_eq_iff)
  with 1 show ?thesis
    by (simp add: Math_ceil_def fl_eval)
qed (simp_all add: Math_ceil_def fl_eval)

lemma localDateTime_civil:
  assumes "0 \<le> m" "m < 12" "1 \<le> d" "d \<le> DaysInMonth m (leapFlag c)"
    and "0 \<le> tm" "tm < msPerDay"
  shows "localFields tza (localDateTime tza c m d tm) = (c, m, d, tm)"
proof -
  have mm: "m div 12 = 0" "m mod 12 = m"
    using assms(1,2) by simp_all
  have le: "d \<le> DaysInMonth (m mod 12) (leapFlag (c + m div 12))"
    using assms(4) by (simp add: mm)
  note f = localDateTime_fields [OF assms(3) le assms(5,6), of tza]
  show ?thesis
    unfolding localFields_def using f by (simp add: mm)
qed

lemma clock_fields:
  assumes "Day (LocalTime tza t) = DayFromYear y + monthStart m (leapFlag y) + dt - 1"
    and "0 \<le> m" "m < 12" "1 \<le> dt" "dt \<le> DaysInMonth m (leapFlag y)"
  shows "localFields tza t = (y, m, dt, TimeWithinDay (LocalTime tza t))"
  unfolding localFields_def getTimeOfDay_def
  using fields_of_day [OF assms] by simp

lemma MakeDay_overflow:
  assumes "0 \<le> m" "m < 12"
  shows "MakeDay y m dt = MakeDay y (m + 1) (dt - DaysInMonth m (leapFlag y))"
  using assms
proof (cases m rule: month_cases)
  case 12
  have "MakeDay y 12 (dt - 31) = DayFromYear (y + 1) + (dt - 31) - 1"
    by (simp add: MakeDay_def monthStart_def)
  also have "\<dots> = DayFromYear y + monthStart 11 (leapFlag y) + dt - 1"
    by (simp add: DayFromYear_Suc DaysInYear_def monthStart_def leapFlag_def)
  also have "\<dots> = MakeDay y 11 dt"
    by (simp add: MakeDay_def leapFlag_def)
  finally show ?thesis
    using 12 by (simp add: DaysInMonth_def)
qed (simp_all add: MakeDay_def monthStart_def DaysInMonth_def leapFlag_def)

lemma DaysInMonth_bounds: "28 \<le> DaysInMonth m (leapFlag y)" "DaysInMonth m (leapFlag y) \<le> 31"
  by (simp_all add: DaysInMonth_def leapFlag_def)

lemma localDateTime_monthsLater:
  assumes d: "1 \<le> d" "d \<le> 31" and tm: "0 \<le> tm" "tm < msPerDay"
  shows "localFields tza (localDateTime tza y (m + k) d tm) = monthsLater k (y, m, d, tm)"
proof -
  define y' where "y' = y + (m + k) div 12"
  define m' where "m' = (m + k) mod 12"
  define len where "len = DaysInMonth m' (leapFlag y')"
  have r: "0 \<le> m'" "m' < 12"
    by (simp_all add: m'_def)
  show ?thesis
  proof (cases "d \<le> len")
    case True
    then have le: "d \<le> DaysInMonth ((m + k) mod 12) (leapFlag (y + (m + k) div 12))"
      by (simp add: len_def m'_def y'_def)
    note f = localDateTime_fields [OF d(1) le tm, of tza]
    show ?thesis
      unfolding localFields_def using f le by simp
  next
    case False
    have "MakeDay y (m + k) d = MakeDay y' m' d"
      unfolding y'_def m'_def by (rule MakeDay_normal)
    also have "\<dots> = MakeDay y' (m' + 1) (d - len)"
      unfolding len_def by (rule MakeDay_overflow [OF r])
    finally have e: "localDateTime tza y (m + k) d tm
        = localDateTime tza y' (m' + 1) (d - len) tm"
      by (simp add: localDateTime_def)
    have l: "28 \<le> len" "len \<le> 31"
      unfolding len_def by (rule DaysInMonth_bounds)+
    have p: "1 \<le> d - len"
      using False by simp
    have "d - len \<le> 28"
      using d(2) l(1) by simp
    also have "\<dots> \<le> DaysInMonth ((m' + 1) mod 12) (leapFlag (y' + (m' + 1) div 12))"
      by (rule DaysInMonth_bounds)
    finally have le: "d - len
        \<le> DaysInMonth ((m' + 1) mod 12) (leapFlag (y' + (m' + 1) div 12))" .
    note f = localDateTime_fields [OF p le tm, of tza]
    have n: "\<not> d \<le> DaysInMonth ((m + k) mod 12) (leapFlag (y + (m + k) div 12))"
      using False by (simp add: len_def m'_def y'_def)
    have "monthsLater k (y, m, d, tm)
        = (y' + (m' + 1) div 12, (m' + 1) mod 12, d - len, tm)"
      using n by (simp add: Let_def len_def m'_def y'_def)
    then show ?thesis
      unfolding e localFields_def using f by simp
  qed
qed

lemma getDate_le_31: "getDate tza t \<le> 31"
  using getDate_le [of tza t] DaysInMonth_bounds(2) [of "getMonth tza t" "getFullYear tza t"]
  by linarith

lemma setMonth_monthsLater:
  "localFields tza (setMonth tza t (getMonth tza t + k)) = monthsLater k (localFields tza t)"
  unfolding setMonth_localDateTime
  using localDateTime_monthsLater [OF getDate_pos getDate_le_31 getTimeOfDay_range]
  by (simp add: localFields_def)

lemma setFullYear_monthsLater:
  "localFields tza (setFullYear tza t (getFullYear tza t + 1)) = monthsLater 12 (localFields tza t)"
proof -
  have "MakeDay (y + 1) m d = MakeDay y (m + 12) d" for y m d
  proof -
    have e: "(m + 12) div 12 = m div 12 + 1" "(m + 12) mod 12 = m mod 12"
      "y + 1 + m div 12 = y + (m div 12 + 1)"
      by simp_all
    show ?thesis
      unfolding MakeDay_def Let_def e ..
  qed
  then have "setFullYear tza t (getFullYear tza t + 1)
      = localDateTime tza (getFullYear tza t) (getMonth tza t + 12) (getDate tza t)
          (getTimeOfDay tza t)"
    unfolding setFullYear_localDateTime localDateTime_def by simp
  then show ?thesis
    using localDateTime_monthsLater [OF getDate_pos getDate_le_31 getTimeOfDay_range]
    by (simp add: localFields_def)
qed

lemma localDateTime_localFields:
  assumes "localFields tza t = (y, m, d, tm)"
  shows "localDateTime tza y m d tm = t"
proof -
  have "localDateTime tza y m d tm
      = setDate tza t (getDate tza t + 0)"
    using assms
    by (simp add: localFields_def localDateTime_def setDate_def getFullYear_def
        getMonth_def getDate_def getTimeOfDay_def Let_def)
  then have "localDateTime tza y m d tm = t + 0 * msPerDay"
    by (simp only: setDate_add)
  then show ?thesis
    by simp
qed

section \<open>The example documents, evaluated\<close>

lemma percentageUsed_recovering:
  "percentageUsed (budget_preSave 0 0 recovering) = 90"
  by (subst budget_preSave_percentageUsed)
    (simp add: totalTransactions_def percentageUsed_def Math_round_def fl_eval
      recovering_def newBudget_def tx_def)

lemma percentageUsed_pausedOverspent:
  "percentageUsed (budget_preSave 0 0 pausedOverspent) = 150"
  by (subst budget_preSave_percentageUsed)
    (simp add: totalTransactions_def percentageUsed_def Math_round_def fl_eval
      pausedOverspent_def newBudget_def tx_def)

lemma percentageUsed_pausedWithin:
  "percentageUsed (budget_preSave 0 0 pausedWithin) = 75"
  by (subst budget_preSave_percentageUsed)
    (simp add: totalTransactions_def percentageUsed_def Math_round_def fl_eval
      pausedWithin_def pausedOverspent_def newBudget_def tx_def)

lemma percentageUsed_alerted: "percentageUsed (alerted l) = 90"
  by (simp add: percentageUsed_def Math_round_def fl_eval alerted_def newBudget_def)

lemma newDateYMD_2024: "newDateYMD 0 2024 0 1 = 1704067200000"
  by (simp add: newDateYMD_def ToInteger_def UTC_def MakeDate_def
      MakeDay_def DayFromYear_def monthStart_def msPerDay_def)

lemma weekNumber_2024_01_15: "weekNumber 0 1705312800000 2024 = 3"
proof -
  have j: "jsDiv 1245600000 604800000 = 2318817665283023 / 1125899906842624"
    by (simp add: fl_eval)
  show ?thesis
    by (simp add: weekNumber_def newDateYMD_2024 j Math_ceil_def ceiling_rat_numeral)
qed

lemma fl_tenths:
  "fl (1 / 10) = 3602879701896397 / 36028797018963968"
  "fl (1 / 5) = 3602879701896397 / 18014398509481984"
  "fl (3 / 10) = 5404319552844595 / 18014398509481984"
  by (simp_all add: fl_eval)

lemma jsDiv_29_200: "jsDiv 29 200 = 5224175567749775 / 36028797018963968"
  by (simp add: fl_eval)

lemma jsMul_29_200: "jsMul (jsDiv 29 200) 100 = 8162774324609023 / 562949953421312"
  unfolding jsDiv_29_200 by (simp add: fl_eval)

lemma percentageUsed_oddPercent: "percentageUsed oddPercent = 14"
  by (simp add: percentageUsed_def oddPercent_def newBudget_def jsMul_29_200 Math_round_def
      floor_rat_numeral)

lemma totalTransactions_tenths:
  "totalTransactions tenths = 1351079888211149 / 4503599627370496"
proof -
  have a: "jsAdd 0 (3602879701896397 / 36028797018963968) = 3602879701896397 / 36028797018963968"
    by (simp add: fl_eval)
  have b: "jsAdd (3602879701896397 / 36028797018963968) (3602879701896397 / 18014398509481984)
      = 1351079888211149 / 4503599627370496"
    by (simp add: fl_eval)
  have "totalTransactions tenths = jsAdd (jsAdd 0 (fl (1 / 10))) (fl (1 / 5))"
    by (simp add: totalTransactions_def tenths_def newBudget_def tx_def)
  also have "\<dots> = 1351079888211149 / 4503599627370496"
    unfolding fl_tenths a b ..
  finally show ?thesis .
qed

lemma totalTransactions_interleaved:
  "totalTransactions interleaved = 1 / 36028797018963968"
proof -
  have a: "jsAdd 0 (3602879701896397 / 36028797018963968) = 3602879701896397 / 36028797018963968"
    by (simp add: fl_eval)
  have b: "jsSub (3602879701896397 / 36028797018963968) (5404319552844595 / 18014398509481984)
      = - (7205759403792793 / 36028797018963968)"
    by (simp add: fl_eval)
  have c: "jsAdd (- (7205759403792793 / 36028797018963968)) (3602879701896397 / 18014398509481984)
      = 1 / 36028797018963968"
    by (simp add: fl_eval)
  have "totalTransactions interleaved
      = jsAdd (jsSub (jsAdd 0 (fl (1 / 10))) (fl (3 / 10))) (fl (1 / 5))"
    by (simp add: totalTransactions_def interleaved_def newBudget_def tx_def)
  also have "\<dots> = 1 / 36028797018963968"
    unfolding fl_tenths a b c ..
  finally show ?thesis .
qed

lemma jsAmounts_interleaved:
  "jsSub (jsAmountsOf Expense interleaved) (jsAmountsOf Income interleaved)
   = 1 / 18014398509481984"
proof -
  have a: "jsAdd 0 (3602879701896397 / 36028797018963968) = 3602879701896397 / 36028797018963968"
    "jsAdd 0 (5404319552844595 / 18014398509481984) = 5404319552844595 / 18014398509481984"
    by (simp_all add: fl_eval)
  have b: "jsAdd (3602879701896397 / 36028797018963968) (3602879701896397 / 18014398509481984)
      = 1351079888211149 / 4503599627370496"
    by (simp add: fl_eval)
  have c: "jsSub (1351079888211149 / 4503599627370496) (5404319552844595 / 18014398509481984)
      = 1 / 18014398509481984"
    by (simp add: fl_eval)
  have "jsSub (jsAmountsOf Expense interleaved) (jsAmountsOf Income interleaved)
      = jsSub (jsAdd (jsAdd 0 (fl (1 / 10))) (fl (1 / 5))) (jsAdd 0 (fl (3 / 10)))"
    by (simp add: jsAmountsOf_def jsSum_def interleaved_def newBudget_def tx_def)
  also have "\<dots> = 1 / 18014398509481984"
    unfolding fl_tenths a b c ..
  finally show ?thesis .
qed

lemma amountsOf_tenths:
  "amountsOf Expense tenths - amountsOf Income tenths
   = 10808639105689191 / 36028797018963968"
  by (simp add: amountsOf_def tenths_def newBudget_def tx_def fl_tenths)

lemma clock_2023_12_31: "localFields 0 1704067199999 = (2023, 11, 31, 86399999)"
proof -
  have d: "Day (LocalTime 0 1704067199999)
           = DayFromYear 2023 + monthStart 11 (leapFlag 2023) + 31 - 1"
    by (simp add: Day_def LocalTime_def msPerDay_def DayFromYear_def monthStart_def
        leapFlag_def isLeapYear_def)
  have r: "(0::int) \<le> 11" "(11::int) < 12" "(1::int) \<le> 31"
      "31 \<le> DaysInMonth 11 (leapFlag 2023)"
    by (simp_all add: DaysInMonth_def)
  show ?thesis
    using clock_fields [OF d r]
    by (simp add: TimeWithinDay_def LocalTime_def msPerDay_def)
qed

text \<open>02:00 UTC on 1 March 2024, five hours west of Greenwich: 21:00 on 29 February.\<close>

lemma clock_2024_02_29_west:
  "localFields (- 18000000) 1709258400000 = (2024, 1, 29, 75600000)"
proof -
  have d: "Day (LocalTime (- 18000000) 1709258400000)
           = DayFromYear 2024 + monthStart 1 (leapFlag 2024) + 29 - 1"
    by (simp add: Day_def LocalTime_def msPerDay_def DayFromYear_def monthStart_def
        leapFlag_def isLeapYear_def)
  have r: "(0::int) \<le> 1" "(1::int) < 12" "(1::int) \<le> 29"
      "29 \<le> DaysInMonth 1 (leapFlag 2024)"
    by (simp_all add: DaysInMonth_def leapFlag_def isLeapYear_def)
  show ?thesis
    using clock_fields [OF d r]
    by (simp add: TimeWithinDay_def LocalTime_def msPerDay_def)
qed

lemma getters_2023_12_31:
  "getFullYear 0 1704067199999 = 2023" "getMonth 0 1704067199999 = 11"
  using clock_2023_12_31 by (simp_all add: localFields_def)

lemma getters_2024_02_29_west:
  "getFullYear (- 18000000) 1709258400000 = 2024"
  "getMonth (- 18000000) 1709258400000 = 1"
  using clock_2024_02_29_west by (simp_all add: localFields_def)

lemma newDateYMD_2023: "newDateYMD 0 2023 0 1 = 1672531200000"
  by (simp add: newDateYMD_def ToInteger_def UTC_def MakeDate_def
      MakeDay_def DayFromYear_def monthStart_def msPerDay_def)

lemma weekNumber_2023: "weekNumber 0 1705312800000 2023 = 55"
proof -
  have j: "jsDiv 32781600000 604800000 = 3814153479058383 / 70368744177664"
    by (simp add: fl_eval)
  show ?thesis
    by (simp add: weekNumber_def newDateYMD_2023 j Math_ceil_def ceiling_rat_numeral)
qed

lemma localDateTime_2024_08_20: "localDateTime 0 2024 7 20 43200000 = 1724155200000"
  by (simp add: localDateTime_def UTC_def MakeDate_def
      MakeDay_def DayFromYear_def monthStart_def msPerDay_def isLeapYear_def)

lemma weekNumber_2024_01_01: "weekNumber 0 1704067200000 2024 = 0"
  by (simp add: weekNumber_def newDateYMD_2024 jsDiv_def fl_def Math_ceil_def)

text \<open>Clocks at 10:00 UTC: 15 and 31 January, 29 February and 2 March 2024, and
  30 November 2023.\<close>

lemma timeOfDay_10h:
  "TimeWithinDay (LocalTime 0 1705312800000) = 36000000"
  "TimeWithinDay (LocalTime 0 1706695200000) = 36000000"
  "TimeWithinDay (LocalTime 0 1709200800000) = 36000000"
  "TimeWithinDay (LocalTime 0 1709373600000) = 36000000"
  "TimeWithinDay (LocalTime 0 1701338400000) = 36000000"
  by (simp_all add: TimeWithinDay_def LocalTime_def msPerDay_def)

lemma fields_2024_01_15: "localFields 0 1705312800000 = (2024, 0, 15, 36000000)"
  by (simp add: localFields_def clock_2024_01_15 getTimeOfDay_def timeOfDay_10h)

lemma fields_2024_01_31: "localFields 0 1706695200000 = (2024, 0, 31, 36000000)"
proof -
  have d: "Day (LocalTime 0 1706695200000)
           = DayFromYear 2024 + monthStart 0 (leapFlag 2024) + 31 - 1"
    by (simp add: Day_def LocalTime_def msPerDay_def DayFromYear_def monthStart_def)
  have r: "(0::int) \<le> 0" "(0::int) < 12" "(1::int) \<le> 31"
      "31 \<le> DaysInMonth 0 (leapFlag 2024)"
    by (simp_all add: DaysInMonth_def)
  show ?thesis
    using clock_fields [OF d r] by (simp add: timeOfDay_10h)
qed

lemma fields_2024_02_29: "localFields 0 1709200800000 = (2024, 1, 29, 36000000)"
proof -
  have d: "Day (LocalTime 0 1709200800000)
           = DayFromYear 2024 + monthStart 1 (leapFlag 2024) + 29 - 1"
    by (simp add: Day_def LocalTime_def msPerDay_def DayFromYear_def monthStart_def)
  have r: "(0::int) \<le> 1" "(1::int) < 12" "(1::int) \<le> 29"
      "29 \<le> DaysInMonth 1 (leapFlag 2024)"
    by (simp_all add: DaysInMonth_def leapFlag_def isLeapYear_def)
  show ?thesis
    using clock_fields [OF d r] by (simp add: timeOfDay_10h)
qed

lemma fields_2024_03_02: "localFields 0 1709373600000 = (2024, 2, 2, 36000000)"
proof -
  have d: "Day (LocalTime 0 1709373600000)
           = DayFromYear 2024 + monthStart 2 (leapFlag 2024) + 2 - 1"
    by (simp add: Day_def LocalTime_def msPerDay_def DayFromYear_def monthStart_def
        leapFlag_def isLeapYear_def)
  have r: "(0::int) \<le> 2" "(2::int) < 12" "(1::int) \<le> 2"
      "2 \<le> DaysInMonth 2 (leapFlag 2024)"
    by (simp_all add: DaysInMonth_def)
  show ?thesis
    using clock_fields [OF d r] by (simp add: timeOfDay_10h)
qed

lemma fields_2023_11_30: "localFields 0 1701338400000 = (2023, 10, 30, 36000000)"
proof -
  have d: "Day (LocalTime 0 1701338400000)
           = DayFromYear 2023 + monthStart 10 (leapFlag 2023) + 30 - 1"
    by (simp add: Day_def LocalTime_def msPerDay_def DayFromYear_def monthStart_def
        leapFlag_def isLeapYear_def)
  have r: "(0::int) \<le> 10" "(10::int) < 12" "(1::int) \<le> 30"
      "30 \<le> DaysInMonth 10 (leapFlag 2023)"
    by (simp_all add: DaysInMonth_def)
  show ?thesis
    using clock_fields [OF d r] by (simp add: timeOfDay_10h)
qed

lemmas date_eval = localDateTime_def UTC_def MakeDate_def MakeDay_def DayFromYear_def
  monthStart_def isLeapYear_def msPerDay_def Let_def

lemma nextDue_2024_01_31: "nextDue 0 1706695200000 (Some Monthly) = 1709373600000"
proof -
  have g: "getFullYear 0 1706695200000 = 2024" "getMonth 0 1706695200000 = 0"
    "getDate 0 1706695200000 = 31" "getTimeOfDay 0 1706695200000 = 36000000"
    using fields_2024_01_31 by (simp_all add: localFields_def)
  have "nextDue 0 1706695200000 (Some Monthly) = localDateTime 0 2024 (0 + 1) 31 36000000"
    unfolding nextDue_def using setMonth_localDateTime [of 0 1706695200000 1]
    by (simp add: g)
  also have "\<dots> = 1709373600000"
    by (simp add: date_eval)
  finally show ?thesis .
qed

section \<open>The claims\<close>

text \<open>
  C1, amended. On every save, if percentageUsed of the recomputed actualAmount is at
  least 100 the status becomes exceeded, whatever it was before (completed and paused
  included); else if the status was exceeded it becomes active; otherwise, with usage
  below 100, the status is left as it was. So a completed or paused Budget keeps its
  status when its usage is below 100, and only then.
\<close>

theorem budget_preSave_status_rule:
  "(percentageUsed (budget_preSave tza now b) \<ge> 100
      \<longrightarrow> status (budget_preSave tza now b) = Exceeded)
   \<and> (percentageUsed (budget_preSave tza now b) < 100 \<and> status b = Exceeded
      \<longrightarrow> status (budget_preSave tza now b) = Active)
   \<and> (percentageUsed (budget_preSave tza now b) < 100 \<and> status b \<noteq> Exceeded
      \<longrightarrow> status (budget_preSave tza now b) = status b)
   \<and> percentageUsed (budget_preSave tza now b)
      = percentageUsed (b\<lparr>actualAmount := totalTransactions b\<rparr>)"
  using budget_preSave_status [of tza now b] budget_preSave_percentageUsed [of tza now b]
  by simp

theorem budget_preSave_status_rule_witness:
  "status recovering = Exceeded
   \<and> percentageUsed (budget_preSave 0 0 recovering) < 100
   \<and> status (budget_preSave 0 0 recovering) = Active
   \<and> status pausedWithin = Paused
   \<and> percentageUsed (budget_preSave 0 0 pausedWithin) < 100
   \<and> status (budget_preSave 0 0 pausedWithin) = Paused
   \<and> percentageUsed (budget_preSave 0 0 pausedOverspent) \<ge> 100
   \<and> status (budget_preSave 0 0 pausedOverspent) = Exceeded"
proof -
  have s: "status recovering = Exceeded" "status pausedWithin = Paused"
    by (simp_all add: recovering_def pausedWithin_def pausedOverspent_def)
  have p: "percentageUsed (budget_preSave 0 0 recovering) < 100"
    "percentageUsed (budget_preSave 0 0 pausedWithin) < 100"
    "percentageUsed (budget_preSave 0 0 pausedOverspent) \<ge> 100"
    by (simp_all add: percentageUsed_recovering percentageUsed_pausedWithin
        percentageUsed_pausedOverspent)
  from budget_preSave_status_rule [of 0 0 recovering] s p
  have 1: "status (budget_preSave 0 0 recovering) = Active"
    by simp
  from budget_preSave_status_rule [of 0 0 pausedWithin] s p
  have 2: "status (budget_preSave 0 0 pausedWithin) = Paused"
    by simp
  from budget_preSave_status_rule [of 0 0 pausedOverspent] p
  have 3: "status (budget_preSave 0 0 pausedOverspent) = Exceeded"
    by simp
  from s p 1 2 3 show ?thesis
    by simp
qed

text \<open>
  C1 as stated fails: a paused Budget of 100 with an expense of 150 is at 150 percent
  after the hook, and its status has become exceeded.
\<close>

theorem paused_counterexample:
  "status pausedOverspent = Paused
   \<and> percentageUsed (budget_preSave 0 0 pausedOverspent) = 150
   \<and> status (budget_preSave 0 0 pausedOverspent) = Exceeded
   \<and> status (budget_preSave 0 0 pausedOverspent) \<noteq> status pausedOverspent"
proof -
  have s: "status pausedOverspent = Paused"
    by (simp add: pausedOverspent_def)
  have e: "status (budget_preSave 0 0 pausedOverspent) = Exceeded"
    by (simp add: budget_preSave_status percentageUsed_pausedOverspent)
  show ?thesis
    by (simp add: s e percentageUsed_pausedOverspent)
qed

text \<open>
  C2, amended. After the pre-save hook, actualAmount is the running total of the
  transactions taken in list order, from 0: an expense is added and any other
  transaction subtracted, each step rounded as the language rounds. On a Budget whose
  amounts are whole, non-negative and together at most \<open>2^53\<close>, where no step
  rounds, this is the sum of the expense amounts minus the sum of the income amounts.
\<close>

theorem budget_preSave_actualAmount_running:
  "actualAmount (budget_preSave tza now b)
     = foldl (\<lambda>total t. if txType t = Expense then jsAdd total (amount t)
                         else jsSub total (amount t)) 0 (transactions b)
   \<and> (wholeAmounts b
      \<longrightarrow> actualAmount (budget_preSave tza now b)
          = amountsOf Expense b - amountsOf Income b)"
proof (intro conjI impI)
  show "actualAmount (budget_preSave tza now b)
     = foldl (\<lambda>total t. if txType t = Expense then jsAdd total (amount t)
                         else jsSub total (amount t)) 0 (transactions b)"
    by (simp add: budget_preSave_actualAmount totalTransactions_def)
next
  assume "wholeAmounts b"
  then show "actualAmount (budget_preSave tza now b)
          = amountsOf Expense b - amountsOf Income b"
    by (simp add: budget_preSave_actualAmount totalTransactions_amountsOf)
qed

theorem budget_preSave_actualAmount_running_witness:
  "wholeAmounts recovering
   \<and> amountsOf Expense recovering - amountsOf Income recovering = 90
   \<and> actualAmount (budget_preSave 0 0 recovering) = 90
   \<and> actualAmount (budget_preSave 0 0 tenths) = 1351079888211149 / 4503599627370496"
proof -
  have w: "wholeAmounts recovering"
    by (simp add: wholeAmounts_def isWhole_def recovering_def newBudget_def tx_def)
  have a: "amountsOf Expense recovering - amountsOf Income recovering = 90"
    by (simp add: amountsOf_def recovering_def newBudget_def tx_def)
  from budget_preSave_actualAmount_running [of 0 0 recovering] w a
  have 1: "actualAmount (budget_preSave 0 0 recovering) = 90"
    by simp
  from budget_preSave_actualAmount_running [of 0 0 tenths]
  have 2: "actualAmount (budget_preSave 0 0 tenths) = 1351079888211149 / 4503599627370496"
    using totalTransactions_tenths by (simp add: totalTransactions_def)
  from w a 1 2 show ?thesis
    by simp
qed

text \<open>
  C2 as stated fails: with expenses of 0.1 and 0.2 the running total is not the sum of
  the two amounts; and with an income of 0.3 between them the running total,
  \<open>2^-55\<close>, differs also from the difference of the two sums as the language
  computes them, \<open>2^-54\<close>.
\<close>

theorem actualAmount_counterexample:
  "actualAmount (budget_preSave 0 0 tenths) = 1351079888211149 / 4503599627370496
   \<and> amountsOf Expense tenths - amountsOf Income tenths
      = 10808639105689191 / 36028797018963968
   \<and> actualAmount (budget_preSave 0 0 tenths)
      \<noteq> amountsOf Expense tenths - amountsOf Income tenths
   \<and> actualAmount (budget_preSave 0 0 interleaved) = 1 / 36028797018963968
   \<and> jsSub (jsAmountsOf Expense interleaved) (jsAmountsOf Income interleaved)
      = 1 / 18014398509481984
   \<and> actualAmount (budget_preSave 0 0 interleaved)
      \<noteq> jsSub (jsAmountsOf Expense interleaved) (jsAmountsOf Income interleaved)"
  by (simp add: budget_preSave_actualAmount totalTransactions_tenths
      totalTransactions_interleaved amountsOf_tenths jsAmounts_interleaved)

text \<open>
  C3. After the pre-save hook of a TaxRecord, taxableIncome is totalIncome minus
  deductions.totalDeductions and refundOrOwed is taxPaid minus taxOwed, where
  totalIncome is the sum of the five income components (a missing component counting
  as 0, by the schema default), whatever taxableIncome and refundOrOwed the caller
  supplied. The sums and differences are those of the language, taken in the order
  of the source.
\<close>

theorem taxRecord_preSave_derived:
  "taxableIncome (taxRecord_preSave r)
     = jsSub (jsAdd (jsAdd (jsAdd (jsAdd (wages (income r)) (dividends (income r)))
                                  (capitalGains (income r)))
                           (businessIncome (income r)))
                    (otherIncome (income r)))
             (totalDeductions (deductions r))
   \<and> refundOrOwed (taxRecord_preSave r) = jsSub (taxPaid r) (taxOwed r)
   \<and> taxRecord_preSave (r\<lparr>taxableIncome := x, refundOrOwed := y\<rparr>) = taxRecord_preSave r
   \<and> taxableIncome (taxRecord_preSave (newTaxRecord i))
     = jsSub (jsAdd (jsAdd (jsAdd (jsAdd (default0 (in_wages i)) (default0 (in_dividends i)))
                                  (default0 (in_capitalGains i)))
                           (default0 (in_businessIncome i)))
                    (default0 (in_otherIncome i)))
             (default0 (in_totalDeductions i))
   \<and> refundOrOwed (taxRecord_preSave (newTaxRecord i))
     = jsSub (default0 (in_taxPaid i)) (default0 (in_taxOwed i))"
  by (simp add: taxRecord_preSave_def totalIncome_def newTaxRecord_def Let_def)

theorem taxRecord_preSave_derived_witness:
  "taxableIncome (taxRecord_preSave (newTaxRecord refundInput)) = 60000
   \<and> refundOrOwed (taxRecord_preSave (newTaxRecord refundInput)) = 3000"
  using taxRecord_preSave_derived [where i = refundInput and r = "newTaxRecord refundInput"]
  by (simp add: refundInput_def newTaxRecord_def fl_eval)

text \<open>
  C4. shouldSendAlert returns false when alerts are disabled; returns false when
  lastAlertSent holds a value and now minus lastAlertSent is strictly less than 24
  hours (a gap of exactly 24 hours does not suppress); and otherwise returns true if
  and only if percentageUsed is at least the warning threshold. It leaves the
  document, lastAlertSent included, as it was.
\<close>

theorem shouldSendAlert_rule:
  "(\<not> enabled (alerts b) \<longrightarrow> fst (shouldSendAlert now b) = False)
   \<and> (lastAlertSent (alerts b) = Some l \<and> now - l < 24 * 60 * 60 * 1000
        \<longrightarrow> fst (shouldSendAlert now b) = False)
   \<and> (enabled (alerts b)
        \<and> (lastAlertSent (alerts b) = None
            \<or> lastAlertSent (alerts b) = Some l \<and> now - l \<ge> 24 * 60 * 60 * 1000)
        \<longrightarrow> fst (shouldSendAlert now b)
            = (percentageUsed b \<ge> warning (thresholds (alerts b))))
   \<and> (enabled (alerts b) \<and> lastAlertSent (alerts b) = Some (now - 24 * 60 * 60 * 1000)
        \<longrightarrow> fst (shouldSendAlert now b)
            = (percentageUsed b \<ge> warning (thresholds (alerts b))))
   \<and> snd (shouldSendAlert now b) = b"
  by (auto simp: shouldSendAlert_def Let_def split: option.splits)

theorem shouldSendAlert_rule_witness:
  "fst (shouldSendAlert 86400000 (alerted 60000)) = False
   \<and> fst (shouldSendAlert 86400000 (alerted 0)) = True
   \<and> fst (shouldSendAlert 86400000 (alerted (- 60000))) = True
   \<and> snd (shouldSendAlert 86400000 (alerted 0)) = alerted 0"
proof -
  have a: "enabled (alerts (alerted l))" "lastAlertSent (alerts (alerted l)) = Some l"
      "warning (thresholds (alerts (alerted l))) = 80" for l
    by (simp_all add: alerted_def newBudget_def)
  from shouldSendAlert_rule [of "alerted 60000" 86400000 60000]
  have 1: "fst (shouldSendAlert 86400000 (alerted 60000)) = False"
    by (simp add: a)
  from shouldSendAlert_rule [of "alerted 0" 86400000 0]
  have 2: "fst (shouldSendAlert 86400000 (alerted 0)) = True"
    "snd (shouldSendAlert 86400000 (alerted 0)) = alerted 0"
    by (simp_all add: a percentageUsed_alerted)
  from shouldSendAlert_rule [of "alerted (- 60000)" 86400000 "- 60000"]
  have 3: "fst (shouldSendAlert 86400000 (alerted (- 60000))) = True"
    by (simp add: a percentageUsed_alerted)
  from 1 2 3 show ?thesis by simp
qed

text \<open>
  C5, amended. The hook defaults year, and the period path of the budget's own period,
  when the path is absent or holds 0 (the test is \<open>!x\<close>); every other period path is
  left as it is. Year becomes the year of now; month of a monthly budget the month of
  now (1 to 12); quarter of a quarterly budget ceil(month of now / 3); week of a
  weekly budget ceil((now - 1 January of the record's year) / 7 days), the year being
  the record's own after the year default, the quotient the language's, and
  1 January the local midnight of that day for a year outside 0 to 99. Year, month,
  day and time of day of a date are those it is built from.
\<close>

theorem budget_preSave_period_fields:
  "year (budget_preSave tza now b)
     = (if year b = None \<or> year b = Some 0 then Some (of_int (getFullYear tza now))
        else year b)
   \<and> month (budget_preSave tza now b)
     = (if period b = Monthly \<and> (month b = None \<or> month b = Some 0)
        then Some (of_int (getMonth tza now + 1)) else month b)
   \<and> quarter (budget_preSave tza now b)
     = (if period b = Quarterly \<and> (quarter b = None \<or> quarter b = Some 0)
        then Some (of_int \<lceil>(of_int (getMonth tza now + 1) :: rat) / 3\<rceil>)
        else quarter b)
   \<and> (year (budget_preSave tza now b) = Some y
      \<longrightarrow> week (budget_preSave tza now b)
          = (if period b = Weekly \<and> (week b = None \<or> week b = Some 0)
             then Some (Math_ceil (jsDiv (of_int (now - newDateYMD tza y 0 1))
                                         (7 * 24 * 60 * 60 * 1000)))
             else week b))
   \<and> (j < 0 \<or> 99 < j
      \<longrightarrow> localFields tza (newDateYMD tza (of_int j) 0 1) = (j, 0, 1, 0))
   \<and> (0 \<le> m \<and> m < 12 \<and> 1 \<le> d \<and> d \<le> DaysInMonth m (leapFlag c)
        \<and> 0 \<le> tm \<and> tm < msPerDay
      \<longrightarrow> localFields tza (localDateTime tza c m d tm) = (c, m, d, tm))"
proof (intro conjI impI)
  show "year (budget_preSave tza now b)
     = (if year b = None \<or> year b = Some 0 then Some (of_int (getFullYear tza now))
        else year b)"
    by (simp add: budget_preSave_year falsyNumber_iff)
next
  show "month (budget_preSave tza now b)
     = (if period b = Monthly \<and> (month b = None \<or> month b = Some 0)
        then Some (of_int (getMonth tza now + 1)) else month b)"
    by (simp add: budget_preSave_month falsyNumber_iff)
next
  show "quarter (budget_preSave tza now b)
     = (if period b = Quarterly \<and> (quarter b = None \<or> quarter b = Some 0)
        then Some (of_int \<lceil>(of_int (getMonth tza now + 1) :: rat) / 3\<rceil>)
        else quarter b)"
    by (simp only: budget_preSave_quarter falsyNumber_iff
        quarterOfMonth [OF getMonth_range])
next
  assume y: "year (budget_preSave tza now b) = Some y"
  show "week (budget_preSave tza now b)
          = (if period b = Weekly \<and> (week b = None \<or> week b = Some 0)
             then Some (Math_ceil (jsDiv (of_int (now - newDateYMD tza y 0 1))
                                         (7 * 24 * 60 * 60 * 1000)))
             else week b)"
    by (simp only: budget_preSave_week [OF y] falsyNumber_iff weekNumber_def Let_def)
next
  assume "j < 0 \<or> 99 < j"
  then show "localFields tza (newDateYMD tza (of_int j) 0 1) = (j, 0, 1, 0)"
    by (simp add: localFields_def newDateYMD_january)
next
  assume "0 \<le> m \<and> m < 12 \<and> 1 \<le> d \<and> d \<le> DaysInMonth m (leapFlag c)
        \<and> 0 \<le> tm \<and> tm < msPerDay"
  then show "localFields tza (localDateTime tza c m d tm) = (c, m, d, tm)"
    by (intro localDateTime_civil) simp_all
qed

theorem budget_preSave_period_fields_witness:
  "year (budget_preSave 0 1705312800000 (weekly\<lparr>year := Some 2024\<rparr>)) = Some 2024
   \<and> week (budget_preSave 0 1705312800000 (weekly\<lparr>year := Some 2024\<rparr>)) = Some 3
   \<and> week (budget_preSave 0 1705312800000 (weekly\<lparr>year := Some 2023\<rparr>)) = Some 55
   \<and> month (budget_preSave 0 1705312800000 (weekly\<lparr>year := Some 2024\<rparr>)) = None
   \<and> quarter (budget_preSave 0 1705312800000 (weekly\<lparr>year := Some 2024\<rparr>)) = None
   \<and> week (budget_preSave 0 1705312800000 (weekly\<lparr>year := Some 2024, week := Some 9\<rparr>))
      = Some 9
   \<and> year (budget_preSave 0 1705312800000 weekly) = Some 2024
   \<and> localFields 0 (newDateYMD 0 2024 0 1) = (2024, 0, 1, 0)
   \<and> localFields 0 1724155200000 = (2024, 7, 20, 43200000)
   \<and> month (budget_preSave 0 1724155200000 (newBudget ''food'' 100\<lparr>year := Some 2024\<rparr>))
      = Some 8
   \<and> week (budget_preSave 0 1724155200000 (newBudget ''food'' 100\<lparr>year := Some 2024\<rparr>))
      = None
   \<and> month (budget_preSave 0 1724155200000
        (newBudget ''food'' 100\<lparr>year := Some 2020, month := Some 5\<rparr>)) = Some 5
   \<and> year (budget_preSave 0 1724155200000
        (newBudget ''food'' 100\<lparr>year := Some 2020, month := Some 5\<rparr>)) = Some 2020
   \<and> quarter (budget_preSave 0 1724155200000 quarterly) = Some 3
   \<and> month (budget_preSave 0 1724155200000 quarterly) = None
   \<and> quarter (budget_preSave 0 1704067199999 quarterly) = Some 4
   \<and> quarter (budget_preSave 0 1704067199999 (quarterly\<lparr>quarter := Some 2\<rparr>)) = Some 2
   \<and> month (budget_preSave 0 1704067199999 (newBudget ''food'' 100)) = Some 12
   \<and> year (budget_preSave 0 1704067199999 (newBudget ''food'' 100)) = Some 2023
   \<and> month (budget_preSave (- 18000000) 1709258400000
        (newBudget ''food'' 100\<lparr>year := Some 2024\<rparr>)) = Some 2"
proof -
  note c = clock_2024_01_15
  note t = budget_preSave_period_fields
  let ?w = "weekly\<lparr>year := Some 2024\<rparr>"
  let ?m = "newBudget ''food'' 100\<lparr>year := Some 2024\<rparr>"
  let ?k = "newBudget ''food'' 100\<lparr>year := Some 2020, month := Some 5\<rparr>"
  have w: "period weekly = Weekly" "week weekly = None" "year weekly = None"
      "month weekly = None" "quarter weekly = None"
    by (simp_all add: weekly_def newBudget_def)
  have q: "period quarterly = Quarterly" "quarter quarterly = None"
      "year quarterly = Some 2024" "month quarterly = None"
    by (simp_all add: quarterly_def newBudget_def)
  have n: "period (newBudget ''food'' 100) = Monthly" "month (newBudget ''food'' 100) = None"
      "year (newBudget ''food'' 100) = None" "week (newBudget ''food'' 100) = None"
    by (simp_all add: newBudget_def)
  note a = t [where b = ?w and tza = 0 and now = 1705312800000 and y = 2024 and j = 2024
      and m = 7 and d = 20 and c = 2024 and tm = 43200000]
  from a w have 1: "year (budget_preSave 0 1705312800000 ?w) = Some 2024"
    by simp
  from a w 1 have "week (budget_preSave 0 1705312800000 ?w)
      = Some (Math_ceil (jsDiv (of_int (1705312800000 - newDateYMD 0 2024 0 1))
                               (7 * 24 * 60 * 60 * 1000)))"
    by simp
  then have 2: "week (budget_preSave 0 1705312800000 ?w) = Some 3"
    using weekNumber_2024_01_15 by (simp add: weekNumber_def Let_def)
  note a' = t [where b = "weekly\<lparr>year := Some 2023\<rparr>" and tza = 0
      and now = 1705312800000 and y = 2023]
  from a' w have y3: "year (budget_preSave 0 1705312800000 (weekly\<lparr>year := Some 2023\<rparr>))
      = Some 2023"
    by simp
  from a' w y3 have "week (budget_preSave 0 1705312800000 (weekly\<lparr>year := Some 2023\<rparr>))
      = Some (Math_ceil (jsDiv (of_int (1705312800000 - newDateYMD 0 2023 0 1))
                               (7 * 24 * 60 * 60 * 1000)))"
    by simp
  then have 3: "week (budget_preSave 0 1705312800000 (weekly\<lparr>year := Some 2023\<rparr>))
      = Some 55"
    using weekNumber_2023 by (simp add: weekNumber_def Let_def)
  from a w have 4: "month (budget_preSave 0 1705312800000 ?w) = None"
    "quarter (budget_preSave 0 1705312800000 ?w) = None"
    by simp_all
  note a9 = t [where b = "weekly\<lparr>year := Some 2024, week := Some 9\<rparr>" and tza = 0
      and now = 1705312800000 and y = 2024]
  from a9 w have "year (budget_preSave 0 1705312800000
      (weekly\<lparr>year := Some 2024, week := Some 9\<rparr>)) = Some 2024"
    by simp
  with a9 have 5: "week (budget_preSave 0 1705312800000
      (weekly\<lparr>year := Some 2024, week := Some 9\<rparr>)) = Some 9"
    by simp
  from t [where b = weekly and tza = 0 and now = 1705312800000] w c
  have 6: "year (budget_preSave 0 1705312800000 weekly) = Some 2024"
    by simp
  have "(2024::int) < 0 \<or> 99 < (2024::int)"
    by simp
  with a have 7: "localFields 0 (newDateYMD 0 (of_int 2024) 0 1) = (2024, 0, 1, 0)"
    by blast
  have "(0::int) \<le> 7 \<and> (7::int) < 12 \<and> (1::int) \<le> 20
      \<and> 20 \<le> DaysInMonth 7 (leapFlag 2024) \<and> (0::int) \<le> 43200000
      \<and> 43200000 < msPerDay"
    by (simp add: DaysInMonth_def msPerDay_def)
  with a have "localFields 0 (localDateTime 0 2024 7 20 43200000)
      = (2024, 7, 20, 43200000)"
    by blast
  then have 8: "localFields 0 1724155200000 = (2024, 7, 20, 43200000)"
    by (simp only: localDateTime_2024_08_20)
  then have g: "getFullYear 0 1724155200000 = 2024" "getMonth 0 1724155200000 = 7"
    by (simp_all add: localFields_def)
  note b = t [where b = ?m and tza = 0 and now = 1724155200000 and y = 2024]
  from b n g have 9: "month (budget_preSave 0 1724155200000 ?m) = Some 8"
    by simp
  from b n have "year (budget_preSave 0 1724155200000 ?m) = Some 2024"
    by simp
  with b n have 10: "week (budget_preSave 0 1724155200000 ?m) = None"
    by simp
  from t [where b = ?k and tza = 0 and now = 1724155200000] n
  have 11: "month (budget_preSave 0 1724155200000 ?k) = Some 5"
    "year (budget_preSave 0 1724155200000 ?k) = Some 2020"
    by simp_all
  from t [where b = quarterly and tza = 0 and now = 1724155200000] q g
  have 12: "quarter (budget_preSave 0 1724155200000 quarterly) = Some 3"
    "month (budget_preSave 0 1724155200000 quarterly) = None"
    by (simp_all add: ceiling_rat_numeral)
  from t [where b = quarterly and tza = 0 and now = 1704067199999] q getters_2023_12_31
  have 13: "quarter (budget_preSave 0 1704067199999 quarterly) = Some 4"
    by (simp add: ceiling_rat_numeral)
  from t [where b = "quarterly\<lparr>quarter := Some 2\<rparr>" and tza = 0 and now = 1704067199999] q
  have 14: "quarter (budget_preSave 0 1704067199999 (quarterly\<lparr>quarter := Some 2\<rparr>))
      = Some 2"
    by simp
  from t [where b = "newBudget ''food'' 100" and tza = 0 and now = 1704067199999] n
    getters_2023_12_31
  have 15: "month (budget_preSave 0 1704067199999 (newBudget ''food'' 100)) = Some 12"
    "year (budget_preSave 0 1704067199999 (newBudget ''food'' 100)) = Some 2023"
    by simp_all
  from t [where b = ?m and tza = "- 18000000" and now = 1709258400000] n
    getters_2024_02_29_west
  have 16: "month (budget_preSave (- 18000000) 1709258400000 ?m) = Some 2"
    by simp
  from 1 2 3 4 5 6 7 8 9 10 11 12 13 14 15 16 show ?thesis
    by simp
qed

text \<open>
  C5 as stated fails on "only when absent": a weekly Budget saved at local midnight of
  1 January of its year gets week 0 from the hook, and a week that is present with the
  value 0 is replaced at the next save, here by 3.
\<close>

theorem week_zero_counterexample:
  "week (budget_preSave 0 1704067200000 (weekly\<lparr>year := Some 2024\<rparr>)) = Some 0
   \<and> week weekZero = Some 0
   \<and> week weekZero \<noteq> None
   \<and> week (budget_preSave 0 1705312800000 weekZero) = Some 3
   \<and> week (budget_preSave 0 1705312800000 weekZero) \<noteq> week weekZero"
proof -
  have y: "year (budget_preSave 0 t (weekly\<lparr>year := Some 2024\<rparr>)) = Some 2024"
    "year (budget_preSave 0 t weekZero) = Some 2024" for t
    by (simp_all add: budget_preSave_year weekZero_def weekly_def newBudget_def)
  have 1: "week (budget_preSave 0 1704067200000 (weekly\<lparr>year := Some 2024\<rparr>)) = Some 0"
    unfolding budget_preSave_week [OF y(1)]
    by (simp add: weekly_def newBudget_def weekNumber_2024_01_01)
  have 2: "week weekZero = Some 0"
    by (simp add: weekZero_def)
  have 3: "week (budget_preSave 0 1705312800000 weekZero) = Some 3"
    unfolding budget_preSave_week [OF y(2)]
    by (simp add: weekZero_def weekly_def newBudget_def weekNumber_2024_01_15)
  show ?thesis
    by (simp add: 1 2 3)
qed

text \<open>
  C6, amended. For a recurring Budget with no nextDueDate the hook stores: for weekly,
  now plus 7 days; for monthly, quarterly and yearly, the date 1, 3 and 12 calendar
  months after now, which is the same day of the month and time of day in that month
  when it has such a day, and otherwise the day as many days into the month after it
  as the day lies beyond its end. The calendar fields determine the date. Saved on
  2024-01-15 a monthly Budget gets 2024-02-15, and a nextDueDate that is present is
  never changed.
\<close>

theorem budget_preSave_nextDueDate:
  "(isRecurring (recurringSettings b) \<and> nextDueDate (recurringSettings b) = None
      \<and> frequency (recurringSettings b) = Some Weekly
      \<longrightarrow> nextDueDate (recurringSettings (budget_preSave tza now b))
          = Some (now + 7 * msPerDay))
   \<and> (isRecurring (recurringSettings b) \<and> nextDueDate (recurringSettings b) = None
      \<and> frequency (recurringSettings b) = Some Monthly
      \<longrightarrow> map_option (localFields tza)
            (nextDueDate (recurringSettings (budget_preSave tza now b)))
          = Some (monthsLater 1 (localFields tza now)))
   \<and> (isRecurring (recurringSettings b) \<and> nextDueDate (recurringSettings b) = None
      \<and> frequency (recurringSettings b) = Some Quarterly
      \<longrightarrow> map_option (localFields tza)
            (nextDueDate (recurringSettings (budget_preSave tza now b)))
          = Some (monthsLater 3 (localFields tza now)))
   \<and> (isRecurring (recurringSettings b) \<and> nextDueDate (recurringSettings b) = None
      \<and> frequency (recurringSettings b) = Some Yearly
      \<longrightarrow> map_option (localFields tza)
            (nextDueDate (recurringSettings (budget_preSave tza now b)))
          = Some (monthsLater 12 (localFields tza now)))
   \<and> (localFields tza t = (y, m, dt, tm) \<longrightarrow> localDateTime tza y m dt tm = t)
   \<and> (isRecurring (recurringSettings b) \<and> nextDueDate (recurringSettings b) = None
      \<and> frequency (recurringSettings b) = Some Monthly
      \<and> localFields tza now = (2024, 0, 15, tm')
      \<longrightarrow> map_option (localFields tza)
            (nextDueDate (recurringSettings (budget_preSave tza now b)))
          = Some (2024, 1, 15, tm'))
   \<and> (nextDueDate (recurringSettings b) = Some d
      \<longrightarrow> nextDueDate (recurringSettings (budget_preSave tza now b)) = Some d)"
proof (intro conjI impI)
  assume "isRecurring (recurringSettings b) \<and> nextDueDate (recurringSettings b) = None
      \<and> frequency (recurringSettings b) = Some Weekly"
  then show "nextDueDate (recurringSettings (budget_preSave tza now b))
          = Some (now + 7 * msPerDay)"
    by (simp add: budget_preSave_recurringSettings nextDue_def setDate_add)
next
  assume "isRecurring (recurringSettings b) \<and> nextDueDate (recurringSettings b) = None
      \<and> frequency (recurringSettings b) = Some Monthly"
  then show "map_option (localFields tza)
            (nextDueDate (recurringSettings (budget_preSave tza now b)))
          = Some (monthsLater 1 (localFields tza now))"
    by (simp add: budget_preSave_recurringSettings nextDue_def setMonth_monthsLater)
next
  assume "isRecurring (recurringSettings b) \<and> nextDueDate (recurringSettings b) = None
      \<and> frequency (recurringSettings b) = Some Quarterly"
  then show "map_option (localFields tza)
            (nextDueDate (recurringSettings (budget_preSave tza now b)))
          = Some (monthsLater 3 (localFields tza now))"
    by (simp add: budget_preSave_recurringSettings nextDue_def setMonth_monthsLater)
next
  assume "isRecurring (recurringSettings b) \<and> nextDueDate (recurringSettings b) = None
      \<and> frequency (recurringSettings b) = Some Yearly"
  then show "map_option (localFields tza)
            (nextDueDate (recurringSettings (budget_preSave tza now b)))
          = Some (monthsLater 12 (localFields tza now))"
    by (simp add: budget_preSave_recurringSettings nextDue_def setFullYear_monthsLater)
next
  assume "localFields tza t = (y, m, dt, tm)"
  then show "localDateTime tza y m dt tm = t"
    by (rule localDateTime_localFields)
next
  assume a: "isRecurring (recurringSettings b) \<and> nextDueDate (recurringSettings b) = None
      \<and> frequency (recurringSettings b) = Some Monthly
      \<and> localFields tza now = (2024, 0, 15, tm')"
  have "monthsLater 1 (2024, 0, 15, tm') = (2024, 1, 15, tm')"
    by (simp add: DaysInMonth_def leapFlag_def)
  with a show "map_option (localFields tza)
            (nextDueDate (recurringSettings (budget_preSave tza now b)))
          = Some (2024, 1, 15, tm')"
    by (simp add: budget_preSave_recurringSettings nextDue_def setMonth_monthsLater)
next
  assume "nextDueDate (recurringSettings b) = Some d"
  then show "nextDueDate (recurringSettings (budget_preSave tza now b)) = Some d"
    by (simp add: budget_preSave_recurringSettings)
qed

theorem budget_preSave_nextDueDate_witness:
  "isRecurring (recurringSettings (recurring Monthly))
   \<and> nextDueDate (recurringSettings (recurring Monthly)) = None
   \<and> localFields 0 1705312800000 = (2024, 0, 15, 36000000)
   \<and> map_option (localFields 0)
        (nextDueDate (recurringSettings (budget_preSave 0 1705312800000 (recurring Monthly))))
      = Some (2024, 1, 15, 36000000)
   \<and> nextDueDate (recurringSettings (budget_preSave 0 1705312800000 (recurring Monthly)))
      = Some 1707991200000
   \<and> nextDueDate (recurringSettings (budget_preSave 0 1705312800000 (recurring Weekly)))
      = Some 1705917600000
   \<and> localFields 0 1701338400000 = (2023, 10, 30, 36000000)
   \<and> map_option (localFields 0)
        (nextDueDate (recurringSettings (budget_preSave 0 1701338400000 (recurring Quarterly))))
      = Some (2024, 2, 1, 36000000)
   \<and> nextDueDate (recurringSettings (budget_preSave 0 1701338400000 (recurring Quarterly)))
      = Some 1709287200000
   \<and> map_option (localFields 0)
        (nextDueDate (recurringSettings (budget_preSave 0 1705312800000 (recurring Yearly))))
      = Some (2025, 0, 15, 36000000)
   \<and> localFields 0 1709200800000 = (2024, 1, 29, 36000000)
   \<and> map_option (localFields 0)
        (nextDueDate (recurringSettings (budget_preSave 0 1709200800000 (recurring Yearly))))
      = Some (2025, 2, 1, 36000000)
   \<and> nextDueDate (recurringSettings (budget_preSave 0 1705312800000 (dueAt 42)))
      = Some 42"
proof -
  have r: "isRecurring (recurringSettings (recurring f))"
      "nextDueDate (recurringSettings (recurring f)) = None"
      "frequency (recurringSettings (recurring f)) = Some f" for f
    by (simp_all add: recurring_def newBudget_def)
  note t = budget_preSave_nextDueDate
  note c = fields_2024_01_15
  let ?m = "nextDueDate (recurringSettings (budget_preSave 0 1705312800000 (recurring Monthly)))"
  let ?q = "nextDueDate (recurringSettings (budget_preSave 0 1701338400000 (recurring Quarterly)))"
  note scenario = t [where b = "recurring Monthly" and tza = 0 and now = 1705312800000
      and tm' = 36000000, THEN conjunct2, THEN conjunct2, THEN conjunct2, THEN conjunct2,
      THEN conjunct2, THEN conjunct1, THEN mp]
  have 1: "map_option (localFields 0) ?m = Some (2024, 1, 15, 36000000)"
    by (rule scenario) (simp add: r c)
  then obtain dm where dm: "?m = Some dm" "localFields 0 dm = (2024, 1, 15, 36000000)"
    by (cases ?m) simp_all
  note rebuilt = t [where tza = 0 and t = dm and y = 2024 and m = 1 and dt = 15
      and tm = 36000000, THEN conjunct2, THEN conjunct2, THEN conjunct2, THEN conjunct2,
      THEN conjunct1, THEN mp]
  have "localDateTime 0 2024 1 15 36000000 = dm"
    by (rule rebuilt) (rule dm(2))
  then have "dm = 1707991200000"
    by (simp add: date_eval)
  with dm(1) have 2: "?m = Some 1707991200000"
    by simp
  note weekly = t [where b = "recurring Weekly" and tza = 0 and now = 1705312800000,
      THEN conjunct1, THEN mp]
  have "nextDueDate (recurringSettings (budget_preSave 0 1705312800000 (recurring Weekly)))
      = Some (1705312800000 + 7 * msPerDay)"
    by (rule weekly) (simp add: r)
  then have 3: "nextDueDate (recurringSettings (budget_preSave 0 1705312800000
      (recurring Weekly))) = Some 1705917600000"
    by (simp add: msPerDay_def)
  note quarterly = t [where b = "recurring Quarterly" and tza = 0 and now = 1701338400000,
      THEN conjunct2, THEN conjunct2, THEN conjunct1, THEN mp]
  have "map_option (localFields 0) ?q = Some (monthsLater 3 (localFields 0 1701338400000))"
    by (rule quarterly) (simp add: r)
  then have 4: "map_option (localFields 0) ?q = Some (2024, 2, 1, 36000000)"
    by (simp add: fields_2023_11_30 DaysInMonth_def leapFlag_def isLeapYear_def)
  then obtain dq where dq: "?q = Some dq" "localFields 0 dq = (2024, 2, 1, 36000000)"
    by (cases ?q) simp_all
  note rebuilt' = t [where tza = 0 and t = dq and y = 2024 and m = 2 and dt = 1
      and tm = 36000000, THEN conjunct2, THEN conjunct2, THEN conjunct2, THEN conjunct2,
      THEN conjunct1, THEN mp]
  have "localDateTime 0 2024 2 1 36000000 = dq"
    by (rule rebuilt') (rule dq(2))
  then have "dq = 1709287200000"
    by (simp add: date_eval)
  with dq(1) have 5: "?q = Some 1709287200000"
    by simp
  note yearly = t [where b = "recurring Yearly" and tza = 0,
      THEN conjunct2, THEN conjunct2, THEN conjunct2, THEN conjunct1, THEN mp]
  have "map_option (localFields 0)
        (nextDueDate (recurringSettings (budget_preSave 0 1705312800000 (recurring Yearly))))
      = Some (monthsLater 12 (localFields 0 1705312800000))"
    by (rule yearly) (simp add: r)
  then have 6: "map_option (localFields 0)
        (nextDueDate (recurringSettings (budget_preSave 0 1705312800000 (recurring Yearly))))
      = Some (2025, 0, 15, 36000000)"
    by (simp add: c DaysInMonth_def)
  have "map_option (localFields 0)
        (nextDueDate (recurringSettings (budget_preSave 0 1709200800000 (recurring Yearly))))
      = Some (monthsLater 12 (localFields 0 1709200800000))"
    by (rule yearly) (simp add: r)
  then have 7: "map_option (localFields 0)
        (nextDueDate (recurringSettings (budget_preSave 0 1709200800000 (recurring Yearly))))
      = Some (2025, 2, 1, 36000000)"
    by (simp add: fields_2024_02_29 DaysInMonth_def leapFlag_def isLeapYear_def)
  note kept = t [where b = "dueAt 42" and tza = 0 and now = 1705312800000 and d = 42,
      THEN conjunct2, THEN conjunct2, THEN conjunct2, THEN conjunct2, THEN conjunct2,
      THEN conjunct2, THEN mp]
  have 8: "nextDueDate (recurringSettings (budget_preSave 0 1705312800000 (dueAt 42)))
      = Some 42"
    by (rule kept) (simp add: dueAt_def recurring_def newBudget_def)
  from r c fields_2023_11_30 fields_2024_02_29 1 2 3 4 5 6 7 8 show ?thesis
    by simp
qed

text \<open>
  C6 as stated fails at the end of a month: a monthly recurring Budget saved on
  2024-01-31 gets the nextDueDate 2024-03-02, which is not in the calendar month after
  January.
\<close>

theorem nextDueDate_month_end_counterexample:
  "isRecurring (recurringSettings (recurring Monthly))
   \<and> nextDueDate (recurringSettings (recurring Monthly)) = None
   \<and> frequency (recurringSettings (recurring Monthly)) = Some Monthly
   \<and> localFields 0 1706695200000 = (2024, 0, 31, 36000000)
   \<and> nextDueDate (recurringSettings (budget_preSave 0 1706695200000 (recurring Monthly)))
      = Some 1709373600000
   \<and> localFields 0 1709373600000 = (2024, 2, 2, 36000000)
   \<and> \<not> inMonthAfter 0 1 1706695200000 1709373600000"
proof -
  have r: "isRecurring (recurringSettings (recurring Monthly))"
      "nextDueDate (recurringSettings (recurring Monthly)) = None"
      "frequency (recurringSettings (recurring Monthly)) = Some Monthly"
    by (simp_all add: recurring_def newBudget_def)
  have n: "nextDueDate (recurringSettings (budget_preSave 0 1706695200000 (recurring Monthly)))
      = Some 1709373600000"
    unfolding budget_preSave_recurringSettings by (simp add: r nextDue_2024_01_31)
  have g: "getFullYear 0 1706695200000 = 2024" "getMonth 0 1706695200000 = 0"
    using fields_2024_01_31 by (simp_all add: localFields_def)
  have h: "getFullYear 0 1709373600000 = 2024" "getMonth 0 1709373600000 = 2"
    using fields_2024_03_02 by (simp_all add: localFields_def)
  have i: "\<not> inMonthAfter 0 1 1706695200000 1709373600000"
    by (simp add: inMonthAfter_def g h)
  from r n i fields_2024_01_31 fields_2024_03_02 show ?thesis
    by simp
qed



text \<open>
  C8, amended. percentageUsed is 0 when budgetedAmount is 0, and otherwise actual /
  budgeted * 100 as the language computes it (the quotient and the product each
  rounded to binary64), rounded half up. At (0, 0), (50, 100) and (150, 100) it is 0,
  50 and 150.
\<close>

theorem percentageUsed_double:
  "(budgetedAmount b = 0 \<longrightarrow> percentageUsed b = 0)
   \<and> (budgetedAmount b \<noteq> 0 \<longrightarrow>
        roundHalfUp (jsMul (jsDiv (actualAmount b) (budgetedAmount b)) 100)
          (percentageUsed b))
   \<and> percentageUsed (b\<lparr>actualAmount := 0, budgetedAmount := 0\<rparr>) = 0
   \<and> percentageUsed (b\<lparr>actualAmount := 50, budgetedAmount := 100\<rparr>) = 50
   \<and> percentageUsed (b\<lparr>actualAmount := 150, budgetedAmount := 100\<rparr>) = 150"
proof (intro conjI impI)
  assume "budgetedAmount b = 0"
  then show "percentageUsed b = 0"
    by (simp add: percentageUsed_def)
next
  assume "budgetedAmount b \<noteq> 0"
  then show "roundHalfUp (jsMul (jsDiv (actualAmount b) (budgetedAmount b)) 100)
      (percentageUsed b)"
    by (simp add: percentageUsed_def Math_round_roundHalfUp)
next
  show "percentageUsed (b\<lparr>actualAmount := 0, budgetedAmount := 0\<rparr>) = 0"
    by (simp add: percentageUsed_def)
next
  have "jsMul (jsDiv 50 100) 100 = 50"
    by (simp add: fl_eval)
  then show "percentageUsed (b\<lparr>actualAmount := 50, budgetedAmount := 100\<rparr>) = 50"
    by (simp add: percentageUsed_def Math_round_def floor_rat_numeral)
next
  have "jsMul (jsDiv 150 100) 100 = 150"
    by (simp add: fl_eval)
  then show "percentageUsed (b\<lparr>actualAmount := 150, budgetedAmount := 100\<rparr>) = 150"
    by (simp add: percentageUsed_def Math_round_def floor_rat_numeral)
qed

theorem percentageUsed_double_witness:
  "budgetedAmount oddPercent \<noteq> 0
   \<and> jsMul (jsDiv (actualAmount oddPercent) (budgetedAmount oddPercent)) 100
      = 8162774324609023 / 562949953421312
   \<and> roundHalfUp (8162774324609023 / 562949953421312) (percentageUsed oddPercent)
   \<and> percentageUsed oddPercent = 14
   \<and> percentageUsed (oddPercent\<lparr>budgetedAmount := 0\<rparr>) = 0"
proof -
  have nz: "budgetedAmount oddPercent \<noteq> 0"
    by (simp add: oddPercent_def newBudget_def)
  have x: "jsMul (jsDiv (actualAmount oddPercent) (budgetedAmount oddPercent)) 100
      = 8162774324609023 / 562949953421312"
    by (simp add: oddPercent_def newBudget_def jsMul_29_200)
  from percentageUsed_double [of oddPercent] nz
  have r: "roundHalfUp (8162774324609023 / 562949953421312) (percentageUsed oddPercent)"
    unfolding x by blast
  have "roundHalfUp (8162774324609023 / 562949953421312) 14"
    by (simp add: roundHalfUp_def)
  with r have v: "percentageUsed oddPercent = 14"
    by (rule roundHalfUp_unique)
  have z: "budgetedAmount (oddPercent\<lparr>budgetedAmount := 0\<rparr>) = 0"
    by simp
  from percentageUsed_double [of "oddPercent\<lparr>budgetedAmount := 0\<rparr>"] z
  have "percentageUsed (oddPercent\<lparr>budgetedAmount := 0\<rparr>) = 0"
    by blast
  with nz x r v show ?thesis
    by simp
qed

text \<open>
  C8 as stated fails: for actual 29 and budgeted 200 the exact value 14.5 rounds half
  up to 15, but the product of the language is just below 14.5 and percentageUsed
  is 14.
\<close>

theorem percentageUsed_counterexample:
  "budgetedAmount oddPercent \<noteq> 0
   \<and> actualAmount oddPercent / budgetedAmount oddPercent * 100 = 29 / 2
   \<and> roundHalfUp (29 / 2) 15
   \<and> percentageUsed oddPercent = 14
   \<and> \<not> roundHalfUp (actualAmount oddPercent / budgetedAmount oddPercent * 100)
          (percentageUsed oddPercent)"
proof -
  have a: "budgetedAmount oddPercent \<noteq> 0"
    "actualAmount oddPercent / budgetedAmount oddPercent * 100 = 29 / 2"
    by (simp_all add: oddPercent_def newBudget_def)
  have b: "roundHalfUp (29 / 2) 15" "\<not> roundHalfUp (29 / 2) 14"
    by (simp_all add: roundHalfUp_def)
  show ?thesis
    unfolding a(2) percentageUsed_oddPercent using a(1) b by blast
qed

text \<open>
  C9. Running the pre-save hook of a TaxRecord, a Budget or an EstatePlan twice with
  the same clock gives the same document as running it once; after the first run the
  paths that are set only when absent hold a value: year, the period path of the
  budget's period, nextDueDate of a recurring budget, nextReviewDate.
\<close>

theorem preSave_twice:
  "taxRecord_preSave (taxRecord_preSave r) = taxRecord_preSave r
   \<and> budget_preSave tza now (budget_preSave tza now b) = budget_preSave tza now b
   \<and> estatePlan_preSave tza now (estatePlan_preSave tza now p)
      = estatePlan_preSave tza now p
   \<and> year (budget_preSave tza now b) \<noteq> None
   \<and> (period b = Monthly \<longrightarrow> month (budget_preSave tza now b) \<noteq> None)
   \<and> (period b = Quarterly \<longrightarrow> quarter (budget_preSave tza now b) \<noteq> None)
   \<and> (period b = Weekly \<longrightarrow> week (budget_preSave tza now b) \<noteq> None)
   \<and> (isRecurring (recurringSettings b)
      \<longrightarrow> nextDueDate (recurringSettings (budget_preSave tza now b)) \<noteq> None)
   \<and> nextReviewDate (estatePlan_preSave tza now p) \<noteq> None"
proof (intro conjI impI)
  show "taxRecord_preSave (taxRecord_preSave r) = taxRecord_preSave r"
    by (rule taxRecord_preSave_idem)
  show "budget_preSave tza now (budget_preSave tza now b) = budget_preSave tza now b"
    by (rule budget_preSave_idem)
  show "estatePlan_preSave tza now (estatePlan_preSave tza now p)
      = estatePlan_preSave tza now p"
    by (rule estatePlan_preSave_idem)
  show "year (budget_preSave tza now b) \<noteq> None"
    using budget_preSave_year_Some [of tza now b] by auto
  show "month (budget_preSave tza now b) \<noteq> None" if "period b = Monthly"
    using that by (cases "month b") (simp_all add: budget_preSave_month)
  show "quarter (budget_preSave tza now b) \<noteq> None" if "period b = Quarterly"
    using that by (cases "quarter b") (simp_all add: budget_preSave_quarter)
  show "week (budget_preSave tza now b) \<noteq> None" if "period b = Weekly"
  proof -
    obtain y where "year (budget_preSave tza now b) = Some y"
      using budget_preSave_year_Some by blast
    from budget_preSave_week [OF this] that show ?thesis
      by (cases "week b") simp_all
  qed
  show "nextDueDate (recurringSettings (budget_preSave tza now b)) \<noteq> None"
    if "isRecurring (recurringSettings b)"
    using that
    by (cases "nextDueDate (recurringSettings b)")
      (simp_all add: budget_preSave_recurringSettings)
  show "nextReviewDate (estatePlan_preSave tza now p) \<noteq> None"
    by (cases "nextReviewDate p") (simp_all add: estatePlan_preSave_def Let_def)
qed

theorem preSave_twice_witness:
  "taxRecord_preSave (taxRecord_preSave (newTaxRecord refundInput))
     = taxRecord_preSave (newTaxRecord refundInput)
   \<and> budget_preSave 0 1705312800000 (budget_preSave 0 1705312800000 weekly)
     = budget_preSave 0 1705312800000 weekly
   \<and> estatePlan_preSave 0 1705312800000 (estatePlan_preSave 0 1705312800000 estate)
     = estatePlan_preSave 0 1705312800000 estate
   \<and> period weekly = Weekly
   \<and> year (budget_preSave 0 1705312800000 weekly) \<noteq> None
   \<and> week (budget_preSave 0 1705312800000 weekly) \<noteq> None
   \<and> isRecurring (recurringSettings (recurring Monthly))
   \<and> nextDueDate (recurringSettings (budget_preSave 0 1705312800000 (recurring Monthly)))
      \<noteq> None
   \<and> nextReviewDate (estatePlan_preSave 0 1705312800000 estate) \<noteq> None"
proof -
  have w: "period weekly = Weekly"
    by (simp add: weekly_def newBudget_def)
  have r: "isRecurring (recurringSettings (recurring Monthly))"
    by (simp add: recurring_def newBudget_def)
  from preSave_twice [of "newTaxRecord refundInput" 0 1705312800000 weekly estate] w
    preSave_twice [of "newTaxRecord refundInput" 0 1705312800000 "recurring Monthly" estate] r
  show ?thesis
    by blast
qed

text \<open>
  C10. The pre-save hook does not clamp actualAmount at 0: for a Budget whose income
  transactions add up to more than its expense transactions, the hook assigns a
  strictly negative actualAmount, which violates the minimum 0 that the schema
  declares for the path. This is so of every budget with whole amounts on which no
  addition rounds; the example is a document whose amounts all satisfy the schema and
  whose actualAmount was valid before the hook ran.
\<close>

theorem budget_preSave_actualAmount_negative:
  assumes "wholeAmounts b" and "amountsOf Expense b < amountsOf Income b"
  shows "actualAmount (budget_preSave tza now b) = amountsOf Expense b - amountsOf Income b
         \<and> actualAmount (budget_preSave tza now b) < 0
         \<and> \<not> schemaMin 0 (Some (actualAmount (budget_preSave tza now b)))"
  using assms(2)
  by (simp add: budget_preSave_actualAmount totalTransactions_amountsOf [OF assms(1)])

theorem budget_preSave_actualAmount_negative_witness:
  "schemaMin 0 (Some (actualAmount refunded))
   \<and> list_all (\<lambda>t. schemaMin 0 (Some (amount t))) (transactions refunded)
   \<and> wholeAmounts refunded
   \<and> amountsOf Expense refunded < amountsOf Income refunded
   \<and> actualAmount (budget_preSave 0 0 refunded) = - 30
   \<and> actualAmount (budget_preSave 0 0 refunded) < 0
   \<and> \<not> schemaMin 0 (Some (actualAmount (budget_preSave 0 0 refunded)))"
proof -
  have h: "amountsOf Expense refunded < amountsOf Income refunded"
    "amountsOf Expense refunded - amountsOf Income refunded = - 30"
    by (simp_all add: amountsOf_def refunded_def newBudget_def tx_def)
  have w: "wholeAmounts refunded"
    by (simp add: wholeAmounts_def isWhole_def refunded_def newBudget_def tx_def)
  have v: "schemaMin 0 (Some (actualAmount refunded))"
      "list_all (\<lambda>t. schemaMin 0 (Some (amount t))) (transactions refunded)"
    by (simp_all add: refunded_def newBudget_def tx_def)
  from budget_preSave_actualAmount_negative [OF w h(1), of 0 0] h w v show ?thesis
    by simp
qed

end
